theory Spec2Isabelle
  imports Main "HOL-Library.Word"
begin

unbundle bit_operations_syntax

section \<open>Data model of runtime/libgcry.c\<close>

text \<open>
  The embedding follows the C source function by function. Conventions:

  \<^item> \<open>uchar\<close> is an 8-bit word; C \<open>char\<close> in the side-file code is HOL's \<open>char\<close>
    (a byte).
  \<^item> A buffer argument \<open>uchar *buf\<close> is the list of all bytes of the allocation that
    \<open>buf\<close> points to; the separate length argument says how many of them are in use.
    Reading or writing at an index beyond the allocation is undefined in C.
  \<^item> A function whose C execution can be undefined (out-of-bounds access, division by
    zero) or can fail to return yields an \<open>option\<close>: \<open>None\<close> means "no defined
    result", \<open>Some r\<close> is the returned state. Error codes returned by the C code are
    values of \<open>rsRetVal\<close> inside \<open>Some\<close>.
  \<^item> \<open>size_t\<close> values are \<open>nat\<close>: each one is a length of or an index into an
    allocation. Variables declared \<open>unsigned\<close> are 32 bits wide; the truncation to
    them and their wrap-around are written out as \<open>mod 2 ^ 32\<close>.
\<close>

type_synonym uchar = "8 word"

datatype rsRetVal =
    RS_RET_OK
  | RS_RET_ERR
  | RS_RET_OUT_OF_MEMORY
  | RS_RET_EI_WR_ERR
  | RS_RET_EI_NO_EXISTS
  | RS_RET_EI_OPN_ERR
  | RS_RET_EI_INVLD_FILE
  | RS_RET_CRY_INVLD_MODE
  | RS_RET_CRY_INVLD_ALGO

text \<open>
  A pointer to a heap block that exactly one structure owns: \<open>NULL\<close>, a live block with
  its content, or a block that has been passed to \<open>free\<close> while the pointer kept its
  value.
\<close>

datatype 'a ptr = NULL | Live 'a | Freed

text \<open>
  Modelled from the spec: \<open>struct gcryctx_s\<close> and \<open>struct gcryfile_s\<close>, which are
  declared in libgcry.h, not among the sources. The fields are the ones that the functions
  of libgcry.c use; they are the ones section 3 of the spec lists for the context, the
  cipher session and the side-file session. The field \<open>mode\<close> of \<open>gcryfile_s\<close> is
  named \<open>openMode\<close> here, as \<open>mode\<close> is taken by \<open>gcryctx_s\<close>. The session
  refers to its context through \<open>ctx\<close>; no function of this file changes a context
  that a session refers to, so the record holds its value.
\<close>

record gcryctx =
  key :: "uchar list option"
  keyLen :: nat
  algo :: int
  mode :: int

record 'h gcryfile =
  chd :: "'h option"
  blkLength :: nat
  eiName :: "string option"
  fd :: int
  openMode :: char
  ctx :: gcryctx
  readBuf :: "string ptr"
  readBufIdx :: int
  readBufMaxIdx :: int

text \<open>
  Modelled from the spec: the consumed cipher capability (section 6, "external cipher
  primitive"), which is libgcrypt and not part of this repository. It is a parameter of the
  functions that call it. A handle has type \<open>'h\<close>; \<open>None\<close> is a non-zero
  \<open>gcry_error_t\<close>. Encryption and decryption work in place on the first \<open>len\<close> bytes
  of the buffer: they receive those bytes and return the bytes that replace them.
\<close>

record 'h libgcrypt =
  gcry_cipher_get_algo_keylen :: "int \<Rightarrow> nat"
  gcry_cipher_get_algo_blklen :: "int \<Rightarrow> nat"
  gcry_cipher_open :: "int \<Rightarrow> int \<Rightarrow> 'h option"
  gcry_cipher_setkey :: "'h \<Rightarrow> uchar list option \<Rightarrow> nat \<Rightarrow> 'h option"
  gcry_cipher_setiv :: "'h \<Rightarrow> uchar list option \<Rightarrow> nat \<Rightarrow> 'h option"
  gcry_cipher_encrypt :: "'h \<Rightarrow> uchar list \<Rightarrow> ('h \<times> uchar list) option"
  gcry_cipher_decrypt :: "'h \<Rightarrow> uchar list \<Rightarrow> ('h \<times> uchar list) option"

section \<open>Padding scheme\<close>

text \<open>
  \<open>addPadding\<close>, lines 360-371. The loop counter \<open>i\<close> is \<open>unsigned\<close> and is compared
  with the \<open>size_t\<close> \<open>nPad\<close>, so \<open>++i\<close> wraps at \<open>2 ^ 32\<close>; the loop is a partial
  function. \<open>None\<close> from the loop is a write beyond the allocation or a loop that does
  not end.
\<close>

partial_function (option) addPadding_loop ::
  "uchar list \<Rightarrow> nat \<Rightarrow> nat \<Rightarrow> nat \<Rightarrow> uchar list option" where
  "addPadding_loop buf plen nPad i =
     (if i < nPad then
        (if plen + i < length buf
         then addPadding_loop (buf[plen + i := 0]) plen nPad ((i + 1) mod 2 ^ 32)
         else None)
      else Some buf)"

definition addPadding :: "'h gcryfile \<Rightarrow> uchar list \<Rightarrow> nat \<Rightarrow> (uchar list \<times> nat) option" where
  "addPadding pF buf plen =
     (if blkLength pF = 0 then None
      else
        let nPad = (blkLength pF - plen mod blkLength pF) mod blkLength pF in
        case addPadding_loop buf plen nPad 0 of
          None \<Rightarrow> None
        | Some buf' \<Rightarrow> Some (buf', plen + nPad))"

text \<open>
  C's \<open>strchr(s, c)\<close> on the allocation \<open>s\<close>: the index of the first byte equal to
  \<open>c\<close>, the terminating zero byte included in the search; \<open>Some None\<close> is the
  \<open>NULL\<close> result (terminator met first); \<open>None\<close> is a scan that leaves the allocation
  without meeting a zero byte.
\<close>

fun strchr :: "uchar list \<Rightarrow> uchar \<Rightarrow> nat option option" where
  "strchr [] c = None"
| "strchr (b # bs) c =
     (if b = c then Some (Some 0)
      else if b = 0 then Some None
      else map_option (map_option Suc) (strchr bs c))"

text \<open>
  \<open>removePadding\<close>, lines 373-393. \<open>len\<close>, \<open>iSrc\<close> and \<open>iDst\<close> are \<open>unsigned\<close>.
  Inside the loop \<open>iDst \<le> iSrc < len < 2 ^ 32\<close>, so the two increments do not wrap.
\<close>

function removePadding_loop ::
  "uchar list \<Rightarrow> nat \<Rightarrow> nat \<Rightarrow> nat \<Rightarrow> (uchar list \<times> nat) option" where
  "removePadding_loop buf len iSrc iDst =
     (if iSrc < len then
        (if length buf \<le> iSrc then None
         else if buf ! iSrc \<noteq> 0 then
           (if length buf \<le> iDst then None
            else removePadding_loop (buf[iDst := buf ! iSrc]) len (iSrc + 1) (iDst + 1))
         else removePadding_loop buf len (iSrc + 1) iDst)
      else Some (buf, iDst))"
  by pat_completeness auto
termination
  by (relation "measure (\<lambda>(buf, len, iSrc, iDst). len - iSrc)") auto

declare removePadding_loop.simps [simp del]

definition removePadding :: "uchar list \<Rightarrow> nat \<Rightarrow> (uchar list \<times> nat) option" where
  "removePadding buf plen =
     (let len = plen mod 2 ^ 32 in
      case strchr buf 0 of
        None \<Rightarrow> None
      | Some None \<Rightarrow> Some (buf, plen)
      | Some (Some frstNUL) \<Rightarrow>
          removePadding_loop buf len (frstNUL mod 2 ^ 32) (frstNUL mod 2 ^ 32))"

section \<open>Encrypting and decrypting a buffer\<close>

text \<open>
  \<open>rsgcryEncrypt\<close>, lines 548-567, and \<open>rsgcryDecrypt\<close>, lines 574-592. The result is
  the return code, the session, the buffer and \<open>*len\<close>.
\<close>

definition rsgcryEncrypt ::
  "'h libgcrypt \<Rightarrow> 'h gcryfile \<Rightarrow> uchar list \<Rightarrow> nat \<Rightarrow>
     (rsRetVal \<times> 'h gcryfile \<times> uchar list \<times> nat) option" where
  "rsgcryEncrypt g pF buf len =
     (if len = 0 then Some (RS_RET_OK, pF, buf, len)
      else
        case addPadding pF buf len of
          None \<Rightarrow> None
        | Some (buf1, len1) \<Rightarrow>
            (case chd pF of
               None \<Rightarrow> None
             | Some h \<Rightarrow>
                 if length buf1 < len1 then None
                 else
                   (case gcry_cipher_encrypt g h (take len1 buf1) of
                      None \<Rightarrow> Some (RS_RET_ERR, pF, buf1, len1)
                    | Some (h', out) \<Rightarrow>
                        Some (RS_RET_OK, pF\<lparr>chd := Some h'\<rparr>, out @ drop len1 buf1, len1))))"

definition rsgcryDecrypt ::
  "'h libgcrypt \<Rightarrow> 'h gcryfile \<Rightarrow> uchar list \<Rightarrow> nat \<Rightarrow>
     (rsRetVal \<times> 'h gcryfile \<times> uchar list \<times> nat) option" where
  "rsgcryDecrypt g pF buf len =
     (case chd pF of
        None \<Rightarrow> None
      | Some h \<Rightarrow>
          if length buf < len then None
          else
            (case gcry_cipher_decrypt g h (take len buf) of
               None \<Rightarrow> Some (RS_RET_ERR, pF, buf, len)
             | Some (h', out) \<Rightarrow>
                 (case removePadding (out @ drop len buf) len of
                    None \<Rightarrow> None
                  | Some (buf', len') \<Rightarrow> Some (RS_RET_OK, pF\<lparr>chd := Some h'\<rparr>, buf', len'))))"

section \<open>Process state and context\<close>

text \<open>
  The process state outside the structures of this file: the file system, the table of
  open descriptors, the allocator and the cipher handles that are open.

  \<^item> \<open>files\<close> maps a path to a file; \<open>may_create\<close> says whether \<open>open\<close> with
    \<open>O_CREAT\<close> may make a new file; \<open>avail\<close> is the number of bytes the file system
    still accepts (a write beyond it is short).
  \<^item> \<open>fdtab\<close> lists the open descriptors; \<open>open\<close> returns the lowest number that is
    not in use.
  \<^item> \<open>mallocs_left\<close> is the number of allocation requests that will still succeed;
    \<open>uninit k\<close> is byte \<open>k\<close> of a block that \<open>malloc\<close> returns.
  \<^item> \<open>cipher_handles\<close> counts the cipher handles that were opened and not closed.
\<close>

record fnode =
  readable :: bool
  writable :: bool
  content :: string

record fdesc =
  fd_path :: string
  fd_wronly :: bool
  fd_append :: bool
  fd_pos :: nat

record world =
  files :: "string \<rightharpoonup> fnode"
  may_create :: bool
  avail :: nat
  fdtab :: "(int \<times> fdesc) list"
  mallocs_left :: nat
  uninit :: "nat \<Rightarrow> uchar"
  cipher_handles :: nat

definition malloc :: "world \<Rightarrow> nat \<Rightarrow> uchar list option \<times> world" where
  "malloc w n =
     (if mallocs_left w = 0 then (None, w)
      else (Some (map (uninit w) [0..<n]), w\<lparr>mallocs_left := mallocs_left w - 1\<rparr>))"

text \<open>
  \<open>rsgcrySetKey\<close>, lines 398-414. \<open>keyLen\<close> and \<open>reqKeyLen\<close> are \<open>uint16_t\<close>; the
  \<open>size_t\<close> that libgcrypt returns is truncated to 16 bits. \<open>key\<close> is the allocation
  the caller passes. The result of \<open>malloc\<close> is not tested: with \<open>NULL\<close> the
  \<open>memcpy\<close> is undefined.
\<close>

definition rsgcrySetKey ::
  "'h libgcrypt \<Rightarrow> gcryctx \<Rightarrow> uchar list \<Rightarrow> 16 word \<Rightarrow> world \<Rightarrow> (int \<times> gcryctx \<times> world) option" where
  "rsgcrySetKey g c k kLen w =
     (let reqKeyLen = (of_nat (gcry_cipher_get_algo_keylen g (algo c)) :: 16 word) in
      if kLen \<noteq> reqKeyLen then Some (uint reqKeyLen, c, w)
      else
        case malloc w (unat kLen) of
          (None, w') \<Rightarrow> None
        | (Some blk, w') \<Rightarrow>
            if length k < unat kLen then None
            else Some (0, c\<lparr>keyLen := unat kLen, key := Some (take (unat kLen) k)\<rparr>, w'))"

text \<open>
  \<open>gcryCtxNew\<close>, lines 330-338. \<open>GCRY_CIPHER_AES128\<close>, \<open>GCRY_CIPHER_MODE_CBC\<close> and
  the two \<open>NONE\<close> values are enumeration constants of libgcrypt's gcrypt.h; the
  numbers are the ones of that header. The result of \<open>calloc\<close> is not tested: with
  \<open>NULL\<close> the two assignments are undefined.
\<close>

definition GCRY_CIPHER_NONE :: int where
  "GCRY_CIPHER_NONE = 0"

definition GCRY_CIPHER_AES128 :: int where
  "GCRY_CIPHER_AES128 = 7"

definition GCRY_CIPHER_MODE_NONE :: int where
  "GCRY_CIPHER_MODE_NONE = 0"

definition GCRY_CIPHER_MODE_CBC :: int where
  "GCRY_CIPHER_MODE_CBC = 3"

definition gcryCtxNew :: "world \<Rightarrow> (gcryctx \<times> world) option" where
  "gcryCtxNew w =
     (if mallocs_left w = 0 then None
      else Some (\<lparr>key = None, keyLen = 0, algo = GCRY_CIPHER_AES128,
                  mode = GCRY_CIPHER_MODE_CBC\<rparr>,
                 w\<lparr>mallocs_left := mallocs_left w - 1\<rparr>))"

text \<open>
  \<open>rsgcrySetMode\<close>, lines 416-429, and \<open>rsgcrySetAlgo\<close>, lines 431-444. The two
  functions that map a name to a libgcrypt number are declared in libgcry.h and are
  parameters here.
\<close>

definition rsgcrySetMode :: "(string \<Rightarrow> int) \<Rightarrow> gcryctx \<Rightarrow> string \<Rightarrow> rsRetVal \<times> gcryctx" where
  "rsgcrySetMode rsgcryModename2Mode c modename =
     (let m = rsgcryModename2Mode modename in
      if m = GCRY_CIPHER_MODE_NONE then (RS_RET_CRY_INVLD_MODE, c)
      else (RS_RET_OK, c\<lparr>mode := m\<rparr>))"

definition rsgcrySetAlgo :: "(string \<Rightarrow> int) \<Rightarrow> gcryctx \<Rightarrow> string \<Rightarrow> rsRetVal \<times> gcryctx" where
  "rsgcrySetAlgo rsgcryAlgoname2Algo c algoname =
     (let a = rsgcryAlgoname2Algo algoname in
      if a = GCRY_CIPHER_NONE then (RS_RET_CRY_INVLD_ALGO, c)
      else (RS_RET_OK, c\<lparr>algo := a\<rparr>))"

section \<open>System calls\<close>

text \<open>
  \<open>open\<close>, \<open>read\<close>, \<open>writev\<close> and \<open>close\<close> on the process state. \<open>open\<close> is
  called with three flag sets in this file. A descriptor names its file by path. A
  \<open>read\<close> of a regular file returns all the bytes that are there, up to the count asked
  for. A result of \<open>- 1\<close> is the error return.
\<close>

datatype errno = ENOENT | EACCES | EFAULT

datatype oflags = O_RDONLY | O_WRONLY_O_APPEND | O_WRONLY_O_CREAT

definition lowest_free :: "(int \<times> fdesc) list \<Rightarrow> int" where
  "lowest_free tab =
     int (hd (filter (\<lambda>n. int n \<notin> set (map fst tab)) [0..<length tab + 1]))"

definition open_path :: "world \<Rightarrow> string option \<Rightarrow> oflags \<Rightarrow> (errno + int) \<times> world" where
  "open_path w path fl =
     (case path of
        None \<Rightarrow> (Inl EFAULT, w)
      | Some p \<Rightarrow>
          (case files w p of
             None \<Rightarrow>
               if fl = O_WRONLY_O_CREAT \<and> may_create w then
                 let d = lowest_free (fdtab w) in
                 (Inr d,
                  w\<lparr>files := (files w)(p \<mapsto> \<lparr>readable = True, writable = True, content = []\<rparr>),
                    fdtab := (d, \<lparr>fd_path = p, fd_wronly = True, fd_append = False,
                                  fd_pos = 0\<rparr>) # fdtab w\<rparr>)
               else if fl = O_WRONLY_O_CREAT then (Inl EACCES, w)
               else (Inl ENOENT, w)
           | Some f \<Rightarrow>
               if (fl = O_RDONLY \<and> \<not> readable f) \<or> (fl \<noteq> O_RDONLY \<and> \<not> writable f)
               then (Inl EACCES, w)
               else
                 let d = lowest_free (fdtab w) in
                 (Inr d,
                  w\<lparr>fdtab := (d, \<lparr>fd_path = p, fd_wronly = (fl \<noteq> O_RDONLY),
                                  fd_append = (fl = O_WRONLY_O_APPEND),
                                  fd_pos = 0\<rparr>) # fdtab w\<rparr>)))"

definition fdtab_put :: "int \<Rightarrow> fdesc \<Rightarrow> (int \<times> fdesc) list \<Rightarrow> (int \<times> fdesc) list" where
  "fdtab_put d f tab = (d, f) # filter (\<lambda>e. fst e \<noteq> d) tab"

definition close_fd :: "world \<Rightarrow> int \<Rightarrow> world" where
  "close_fd w d = w\<lparr>fdtab := filter (\<lambda>e. fst e \<noteq> d) (fdtab w)\<rparr>"

definition read_fd :: "world \<Rightarrow> int \<Rightarrow> nat \<Rightarrow> int \<times> string \<times> world" where
  "read_fd w d n =
     (case map_of (fdtab w) d of
        None \<Rightarrow> (- 1, [], w)
      | Some f \<Rightarrow>
          if fd_wronly f then (- 1, [], w)
          else
            (case files w (fd_path f) of
               None \<Rightarrow> (- 1, [], w)
             | Some fl \<Rightarrow>
                 let data = take n (drop (fd_pos f) (content fl)) in
                 (int (length data), data,
                  w\<lparr>fdtab := fdtab_put d (f\<lparr>fd_pos := fd_pos f + length data\<rparr>) (fdtab w)\<rparr>)))"

definition writev :: "world \<Rightarrow> int \<Rightarrow> string \<Rightarrow> int \<times> world" where
  "writev w d data =
     (case map_of (fdtab w) d of
        None \<Rightarrow> (- 1, w)
      | Some f \<Rightarrow>
          if \<not> fd_wronly f then (- 1, w)
          else
            (case files w (fd_path f) of
               None \<Rightarrow> (- 1, w)
             | Some fl \<Rightarrow>
                 let old = content fl;
                     pos = (if fd_append f then length old else fd_pos f);
                     chunk = take (avail w) data
                 in
                   if chunk = [] \<and> data \<noteq> [] then (- 1, w)
                   else
                     (int (length chunk),
                      w\<lparr>files := (files w)(fd_path f \<mapsto>
                           fl\<lparr>content := take pos (old @ replicate (pos - length old) (CHR 0x00))
                                          @ chunk @ drop (pos + length chunk) old\<rparr>),
                        avail := avail w - length chunk,
                        fdtab := fdtab_put d (f\<lparr>fd_pos := pos + length chunk\<rparr>) (fdtab w)\<rparr>)))"

section \<open>Record codec of the side-file\<close>

text \<open>
  Modelled from the spec: the constants of libgcry.h, which is not among the sources.
  The spec gives the limits ("Record type \<le> 31 bytes; value \<le> 1023 bytes") and the
  suffix; the header comment of libgcry.c gives the same limits and the file type line
  \<open>FILETYPE:rsyslog-enrcyption-info\<close>.
\<close>

definition EIF_MAX_RECTYPE_LEN :: nat where
  "EIF_MAX_RECTYPE_LEN = 31"

definition EIF_MAX_VALUE_LEN :: nat where
  "EIF_MAX_VALUE_LEN = 1023"

definition RSGCRY_FILETYPE_NAME :: string where
  "RSGCRY_FILETYPE_NAME = ''rsyslog-enrcyption-info''"

definition ENCINFO_SUFFIX :: string where
  "ENCINFO_SUFFIX = ''.encinfo''"

definition READBUF_SIZE :: nat where
  "READBUF_SIZE = 4096"

text \<open>The string that a \<open>char\<close> array holds for \<open>strcmp\<close>, \<open>strlen\<close> and \<open>%s\<close>.\<close>

definition cstr :: "string \<Rightarrow> string" where
  "cstr s = takeWhile (\<lambda>c. c \<noteq> CHR 0x00) s"

text \<open>
  \<open>eiWriteRec\<close>, lines 57-81. \<open>recHdr\<close> and \<open>buf\<close> are the allocations, the lengths
  say how many bytes of each go into the vector.
\<close>

definition eiWriteRec ::
  "'h gcryfile \<Rightarrow> string \<Rightarrow> nat \<Rightarrow> string \<Rightarrow> nat \<Rightarrow> world \<Rightarrow> (rsRetVal \<times> world) option" where
  "eiWriteRec gf recHdr lenRecHdr buf lenBuf w =
     (if length recHdr < lenRecHdr \<or> length buf < lenBuf then None
      else
        let towrite = lenRecHdr + lenBuf + 1;
            (nwritten, w') =
               writev w (fd gf) (take lenRecHdr recHdr @ take lenBuf buf @ [CHR 0x0A])
        in
          if nwritten \<noteq> int towrite then Some (RS_RET_EI_WR_ERR, w')
          else Some (RS_RET_OK, w'))"

text \<open>\<open>eiOpenRead\<close>, lines 83-93.\<close>

definition eiOpenRead :: "'h gcryfile \<Rightarrow> world \<Rightarrow> rsRetVal \<times> 'h gcryfile \<times> world" where
  "eiOpenRead gf w =
     (case open_path w (eiName gf) O_RDONLY of
        (Inr d, w') \<Rightarrow> (RS_RET_OK, gf\<lparr>fd := d\<rparr>, w')
      | (Inl e, w') \<Rightarrow>
          (if e = ENOENT then RS_RET_EI_NO_EXISTS else RS_RET_EI_OPN_ERR, gf\<lparr>fd := - 1\<rparr>, w'))"

text \<open>
  \<open>eiRead\<close>, lines 95-114. The read buffer is modelled by the bytes that \<open>read\<close> has
  stored in it; a block fresh from \<open>malloc\<close> has none. \<open>read\<close> into a block that
  was freed is undefined.
\<close>

definition eiRead :: "'h gcryfile \<Rightarrow> world \<Rightarrow> (rsRetVal \<times> 'h gcryfile \<times> world) option" where
  "eiRead gf w =
     (if readBuf gf = NULL \<and> mallocs_left w = 0 then Some (RS_RET_OUT_OF_MEMORY, gf, w)
      else
        let (gf1, w1) =
              (if readBuf gf = NULL
               then (gf\<lparr>readBuf := Live []\<rparr>, w\<lparr>mallocs_left := mallocs_left w - 1\<rparr>)
               else (gf, w))
        in
          case readBuf gf1 of
            Live old \<Rightarrow>
              (case read_fd w1 (fd gf1) READBUF_SIZE of
                 (nRead, data, w2) \<Rightarrow>
                   if nRead \<le> 0 then Some (RS_RET_ERR, gf1, w2)
                   else
                     Some (RS_RET_OK,
                           gf1\<lparr>readBuf := Live (data @ drop (length data) old),
                               readBufMaxIdx := nRead, readBufIdx := 0\<rparr>,
                           w2))
          | _ \<Rightarrow> None)"

text \<open>
  \<open>eiReadChar\<close>, lines 118-132. The inner \<open>None\<close> is \<open>EOF\<close>. Reading a byte of the
  buffer that no \<open>read\<close> has stored is undefined.
\<close>

definition readBuf_fetch :: "'h gcryfile \<Rightarrow> world \<Rightarrow> (char option \<times> 'h gcryfile \<times> world) option" where
  "readBuf_fetch gf w =
     (case readBuf gf of
        Live b \<Rightarrow>
          if 0 \<le> readBufIdx gf \<and> nat (readBufIdx gf) < length b
          then Some (Some (b ! nat (readBufIdx gf)), gf\<lparr>readBufIdx := readBufIdx gf + 1\<rparr>, w)
          else None
      | _ \<Rightarrow> None)"

definition eiReadChar :: "'h gcryfile \<Rightarrow> world \<Rightarrow> (char option \<times> 'h gcryfile \<times> world) option" where
  "eiReadChar gf w =
     (if readBufIdx gf \<ge> readBufMaxIdx gf then
        (case eiRead gf w of
           None \<Rightarrow> None
         | Some (r, gf1, w1) \<Rightarrow>
             if r \<noteq> RS_RET_OK then Some (None, gf1, w1) else readBuf_fetch gf1 w1)
      else readBuf_fetch gf w)"

text \<open>\<open>eiCheckFiletype\<close>, lines 135-161.\<close>

definition eiCheckFiletype :: "'h gcryfile \<Rightarrow> world \<Rightarrow> rsRetVal \<times> 'h gcryfile \<times> world" where
  "eiCheckFiletype gf w =
     (let bNeedClose = (fd gf = - 1);
          (r, gf1, w1) = (if bNeedClose then eiOpenRead gf w else (RS_RET_OK, gf, w))
      in
        if r \<noteq> RS_RET_OK then (r, gf1, w1)
        else
          let hdr = ''FILETYPE:'' @ RSGCRY_FILETYPE_NAME @ [CHR 0x0A];
              toRead = length hdr;
              (didRead, hdrBuf, w2) = read_fd w1 (fd gf1) toRead;
              (gf3, w3) = (if bNeedClose then (gf1\<lparr>fd := - 1\<rparr>, close_fd w2 (fd gf1))
                           else (gf1, w2))
          in
            if didRead \<noteq> int toRead \<or> hdrBuf \<noteq> hdr then (RS_RET_EI_INVLD_FILE, gf3, w3)
            else (RS_RET_OK, gf3, w3))"

text \<open>
  \<open>eiGetRecord\<close>, lines 166-192. Each loop is a function of the loop state; \<open>c\<close> is
  the last character read and \<open>i\<close> runs on from the first loop into the second.
  \<open>rectype\<close> and \<open>value\<close> are the characters stored so far (\<open>j\<close> is the length of
  \<open>value\<close>); the arrays of the caller have room for \<open>EIF_MAX_*_LEN + 1\<close> characters,
  which the loop bounds never exceed.
\<close>

function eiGetRecord_rectype ::
  "nat \<Rightarrow> char option \<Rightarrow> string \<Rightarrow> 'h gcryfile \<Rightarrow> world \<Rightarrow>
     (nat \<times> char option \<times> string \<times> 'h gcryfile \<times> world) option" where
  "eiGetRecord_rectype i c rectype gf w =
     (if i < EIF_MAX_RECTYPE_LEN then
        (case eiReadChar gf w of
           None \<Rightarrow> None
         | Some (None, gf', w') \<Rightarrow> Some (i, None, rectype, gf', w')
         | Some (Some ch, gf', w') \<Rightarrow>
             if ch = CHR '':'' then Some (i, Some ch, rectype, gf', w')
             else eiGetRecord_rectype (i + 1) (Some ch) (rectype @ [ch]) gf' w')
      else Some (i, c, rectype, gf, w))"
  by pat_completeness auto
termination
  by (relation "measure (\<lambda>(i, c, rectype, gf, w). EIF_MAX_RECTYPE_LEN - i)") auto

declare eiGetRecord_rectype.simps [simp del]

function eiGetRecord_value ::
  "nat \<Rightarrow> char option \<Rightarrow> string \<Rightarrow> 'h gcryfile \<Rightarrow> world \<Rightarrow>
     (nat \<times> char option \<times> string \<times> 'h gcryfile \<times> world) option" where
  "eiGetRecord_value i c val gf w =
     (if i < EIF_MAX_VALUE_LEN then
        (case eiReadChar gf w of
           None \<Rightarrow> None
         | Some (None, gf', w') \<Rightarrow> Some (i, None, val, gf', w')
         | Some (Some ch, gf', w') \<Rightarrow>
             if ch = CHR 0x0A then Some (i, Some ch, val, gf', w')
             else eiGetRecord_value (i + 1) (Some ch) (val @ [ch]) gf' w')
      else Some (i, c, val, gf, w))"
  by pat_completeness auto
termination
  by (relation "measure (\<lambda>(i, c, val, gf, w). EIF_MAX_VALUE_LEN - i)") auto

declare eiGetRecord_value.simps [simp del]

definition eiGetRecord ::
  "'h gcryfile \<Rightarrow> world \<Rightarrow> (rsRetVal \<times> string \<times> string \<times> 'h gcryfile \<times> world) option" where
  "eiGetRecord gf w =
     (case eiGetRecord_rectype 0 None [] gf w of
        None \<Rightarrow> None
      | Some (i, c, rectype, gf1, w1) \<Rightarrow>
          if c \<noteq> Some (CHR '':'') then Some (RS_RET_ERR, rectype, [], gf1, w1)
          else
            (case eiGetRecord_value (i + 1) c [] gf1 w1 of
               None \<Rightarrow> None
             | Some (i', c', val, gf2, w2) \<Rightarrow>
                 if c' \<noteq> Some (CHR 0x0A) then Some (RS_RET_ERR, rectype, val, gf2, w2)
                 else Some (RS_RET_OK, rectype, val, gf2, w2)))"

section \<open>Reading and writing the IV record\<close>

text \<open>
  The body of the decoding loop of \<open>eiGetIV\<close>, lines 217-230. The tests on
  \<open>value[i]\<close> compare with \<open>'0'\<close> (48), \<open>'9'\<close> (57), \<open>'a'\<close> (97) and \<open>'f'\<close>
  (102); a byte above 127 fails them whether \<open>char\<close> is signed or not. \<open>iv\<close> is the
  allocation that receives the bytes.
\<close>

definition hex_nibble :: "char \<Rightarrow> uchar option" where
  "hex_nibble ch =
     (let v = (of_char ch :: nat) in
      if 48 \<le> v \<and> v \<le> 57 then Some (of_nat (v - 48))
      else if 97 \<le> v \<and> v \<le> 102 then Some (of_nat (v - 97 + 10))
      else None)"

function eiGetIV_loop ::
  "string \<Rightarrow> nat \<Rightarrow> nat \<Rightarrow> nat \<Rightarrow> uchar list \<Rightarrow> (rsRetVal \<times> uchar list) option" where
  "eiGetIV_loop val valueLen i j iv =
     (if i < valueLen then
        (case hex_nibble (val ! i) of
           None \<Rightarrow> Some (RS_RET_ERR, iv)
         | Some nibble \<Rightarrow>
             if length iv \<le> j then None
             else if i mod 2 = 0 then
               eiGetIV_loop val valueLen (i + 1) j (iv[j := push_bit 4 nibble])
             else
               eiGetIV_loop val valueLen (i + 1) (j + 1) (iv[j := (iv ! j) OR nibble]))
      else Some (RS_RET_OK, iv))"
  by pat_completeness auto
termination
  by (relation "measure (\<lambda>(val, valueLen, i, j, iv). valueLen - i)") auto

declare eiGetIV_loop.simps [simp del]

text \<open>
  \<open>eiGetIV\<close>, lines 194-233. \<open>iv\<close> is the pointer the caller passes (\<open>None\<close> is
  \<open>NULL\<close>, an allocation of no bytes).
\<close>

definition eiGetIV ::
  "'h gcryfile \<Rightarrow> uchar list option \<Rightarrow> nat \<Rightarrow> world \<Rightarrow>
     (rsRetVal \<times> uchar list option \<times> 'h gcryfile \<times> world) option" where
  "eiGetIV gf iv leniv w =
     (case eiGetRecord gf w of
        None \<Rightarrow> None
      | Some (r, rectype, val, gf', w') \<Rightarrow>
          if r \<noteq> RS_RET_OK then Some (r, iv, gf', w')
          else if cstr rectype \<noteq> ''IV'' then Some (RS_RET_ERR, iv, gf', w')
          else
            let valueLen = length (cstr val) in
            if valueLen div 2 \<noteq> leniv then Some (RS_RET_ERR, iv, gf', w')
            else
              (case eiGetIV_loop val valueLen 0 0 (case iv of None \<Rightarrow> [] | Some b \<Rightarrow> b) of
                 None \<Rightarrow> None
               | Some (r', b') \<Rightarrow> Some (r', map_option (\<lambda>b. b') iv, gf', w')))"

text \<open>\<open>eiOpenAppend\<close>, lines 236-265.\<close>

definition eiOpenAppend :: "'h gcryfile \<Rightarrow> world \<Rightarrow> (rsRetVal \<times> 'h gcryfile \<times> world) option" where
  "eiOpenAppend gf w =
     (case eiCheckFiletype gf w of
        (localRet, gf1, w1) \<Rightarrow>
          if localRet = RS_RET_OK then
            (case open_path w1 (eiName gf1) O_WRONLY_O_APPEND of
               (Inl e, w2) \<Rightarrow> Some (RS_RET_EI_OPN_ERR, gf1\<lparr>fd := - 1\<rparr>, w2)
             | (Inr d, w2) \<Rightarrow> Some (RS_RET_OK, gf1\<lparr>fd := d\<rparr>, w2))
          else if localRet = RS_RET_EI_NO_EXISTS then
            (case open_path w1 (eiName gf1) O_WRONLY_O_CREAT of
               (Inl e, w2) \<Rightarrow> Some (RS_RET_EI_OPN_ERR, gf1\<lparr>fd := - 1\<rparr>, w2)
             | (Inr d, w2) \<Rightarrow>
                 (case eiWriteRec (gf1\<lparr>fd := d\<rparr>) ''FILETYPE:'' 9 RSGCRY_FILETYPE_NAME
                         (length RSGCRY_FILETYPE_NAME) w2 of
                    None \<Rightarrow> None
                  | Some (r, w3) \<Rightarrow> Some (r, gf1\<lparr>fd := d\<rparr>, w3)))
          else Some (localRet, gf1\<lparr>fd := - 1\<rparr>, w1))"

text \<open>
  \<open>eiWriteIV\<close>, lines 267-290. The loop reads \<open>blkLength\<close> bytes of \<open>iv\<close> and
  stores two characters of \<open>hexchars\<close> for each.
\<close>

definition hexchars :: string where
  "hexchars = ''0123456789abcdef''"

definition eiWriteIV :: "'h gcryfile \<Rightarrow> uchar list option \<Rightarrow> world \<Rightarrow> (rsRetVal \<times> world) option" where
  "eiWriteIV gf iv w =
     (if blkLength gf > 4096 div 2 then Some (RS_RET_ERR, w)
      else
        let b = (case iv of None \<Rightarrow> [] | Some b \<Rightarrow> b) in
        if length b < blkLength gf then None
        else
          let hex = concat (map (\<lambda>x. [hexchars ! unat (drop_bit 4 x), hexchars ! unat (x AND 0x0f)])
                              (take (blkLength gf) b))
          in eiWriteRec gf ''IV:'' 3 hex (blkLength gf * 2) w)"

section \<open>Closing the side-file and releasing the session\<close>

text \<open>
  \<open>snprintf(offs, sizeof(offs), "%lld", offsLogfile)\<close>: \<open>printf_lld\<close> is the decimal
  text of a signed value; \<open>offs\<close> receives at most 20 characters of it and \<open>len\<close> is
  the length of the whole text.
\<close>

fun dec_digits :: "nat \<Rightarrow> string" where
  "dec_digits n =
     (if n < 10 then [''0123456789'' ! n]
      else dec_digits (n div 10) @ [''0123456789'' ! (n mod 10)])"

declare dec_digits.simps [simp del]

definition printf_lld :: "int \<Rightarrow> string" where
  "printf_lld v = (if v < 0 then CHR ''-'' # dec_digits (nat (- v)) else dec_digits (nat v))"

text \<open>
  \<open>eiClose\<close>, lines 292-309. It returns \<open>void\<close>; the result of \<open>eiWriteRec\<close> is
  dropped. \<open>free\<close> of a block that was freed before is undefined.
\<close>

definition eiClose :: "'h gcryfile \<Rightarrow> 64 word \<Rightarrow> world \<Rightarrow> ('h gcryfile \<times> world) option" where
  "eiClose gf offsLogfile w =
     (if fd gf = - 1 then Some (gf, w)
      else
        let s = printf_lld (sint offsLogfile);
            offs = take 20 s;
            len = length s
        in
          case eiWriteRec gf ''END:'' 4 offs len w of
            None \<Rightarrow> None
          | Some (r, w1) \<Rightarrow>
              (case readBuf gf of
                 Freed \<Rightarrow> None
               | NULL \<Rightarrow> Some (gf\<lparr>fd := - 1\<rparr>, close_fd w1 (fd gf))
               | Live b \<Rightarrow> Some (gf\<lparr>readBuf := Freed, fd := - 1\<rparr>, close_fd w1 (fd gf))))"

text \<open>
  \<open>gcryfileConstruct\<close>, lines 311-327. \<open>MAXFNAME\<close> is a constant of rsyslog.h, which
  is not among the sources; it is the parameter \<open>maxfname\<close>. The result of \<open>strdup\<close>
  is not tested.
\<close>

definition gcryfileConstruct ::
  "nat \<Rightarrow> gcryctx \<Rightarrow> string \<Rightarrow> world \<Rightarrow> rsRetVal \<times> 'h gcryfile option \<times> world" where
  "gcryfileConstruct maxfname c logfn w =
     (if mallocs_left w = 0 then (RS_RET_OUT_OF_MEMORY, None, w)
      else
        let w1 = w\<lparr>mallocs_left := mallocs_left w - 1\<rparr>;
            fn = take maxfname (cstr logfn @ ENCINFO_SUFFIX);
            (nm, w2) = (if mallocs_left w1 = 0 then (None, w1)
                        else (Some fn, w1\<lparr>mallocs_left := mallocs_left w1 - 1\<rparr>))
        in
          (RS_RET_OK,
           Some \<lparr>chd = None, blkLength = 0, eiName = nm, fd = - 1, openMode = CHR 0x00,
                 ctx = c, readBuf = NULL, readBufIdx = 0, readBufMaxIdx = 0\<rparr>,
           w2))"

text \<open>
  \<open>gcryfileDestruct\<close>, lines 340-351. After it the session object is gone; the cipher
  handle \<open>chd\<close> is not passed to libgcrypt for closing.
\<close>

definition gcryfileDestruct :: "'h gcryfile option \<Rightarrow> 64 word \<Rightarrow> world \<Rightarrow> (int \<times> world) option" where
  "gcryfileDestruct gf offsLogfile w =
     (case gf of
        None \<Rightarrow> Some (0, w)
      | Some f \<Rightarrow>
          (case eiClose f offsLogfile w of
             None \<Rightarrow> None
           | Some (f', w') \<Rightarrow> Some (0, w')))"

section \<open>Opening a session\<close>

text \<open>\<open>seedIV\<close>, lines 452-469. The descriptor is used only when it is positive.\<close>

definition seedIV :: "'h gcryfile \<Rightarrow> world \<Rightarrow> uchar list option \<times> world" where
  "seedIV gf w =
     (case malloc w (blkLength gf) of
        (iv, w1) \<Rightarrow>
          (case open_path w1 (Some ''/dev/urandom'') O_RDONLY of
             (Inl e, w2) \<Rightarrow> (iv, w2)
           | (Inr d, w2) \<Rightarrow>
               if d > 0 then
                 (case iv of
                    None \<Rightarrow> (None, close_fd w2 d)
                  | Some b \<Rightarrow>
                      (case read_fd w2 d (blkLength gf) of
                         (n, data, w3) \<Rightarrow>
                           (Some (map of_char data @ drop (length data) b), close_fd w3 d)))
               else (iv, w2)))"

text \<open>
  \<open>readIV\<close>, lines 471-492. The \<open>do\<close> loop ends with the first result of
  \<open>eiOpenRead\<close> that is not \<open>RS_RET_EI_NO_EXISTS\<close>; while the side-file is missing it
  does not end. \<open>others n\<close> is what other processes do to the file system during the
  \<open>n\<close>-th call of \<open>srSleep\<close>.
\<close>

partial_function (option) readIV_loop ::
  "(nat \<Rightarrow> (string \<rightharpoonup> fnode) \<Rightarrow> (string \<rightharpoonup> fnode)) \<Rightarrow> nat \<Rightarrow> 'h gcryfile \<Rightarrow> world \<Rightarrow>
     (rsRetVal \<times> 'h gcryfile \<times> world) option" where
  "readIV_loop others n gf w =
     (case eiOpenRead gf w of
        (localRet, gf', w') \<Rightarrow>
          if localRet = RS_RET_EI_NO_EXISTS
          then readIV_loop others (n + 1) gf' (w'\<lparr>files := others n (files w')\<rparr>)
          else Some (localRet, gf', w'))"

definition readIV ::
  "(nat \<Rightarrow> (string \<rightharpoonup> fnode) \<Rightarrow> (string \<rightharpoonup> fnode)) \<Rightarrow> 'h gcryfile \<Rightarrow> world \<Rightarrow>
     (rsRetVal \<times> uchar list option \<times> 'h gcryfile \<times> world) option" where
  "readIV others gf w =
     (case readIV_loop others 0 gf w of
        None \<Rightarrow> None
      | Some (localRet, gf1, w1) \<Rightarrow>
          if localRet \<noteq> RS_RET_OK then Some (localRet, None, gf1, w1)
          else
            (case eiCheckFiletype gf1 w1 of
               (r2, gf2, w2) \<Rightarrow>
                 if r2 \<noteq> RS_RET_OK then Some (r2, None, gf2, w2)
                 else
                   (case malloc w2 (blkLength gf2) of
                      (iv, w3) \<Rightarrow> eiGetIV gf2 iv (blkLength gf2) w3)))"

text \<open>
  \<open>rsgcryInitCrypt\<close>, lines 494-546. \<open>rsgcryInitCrypt_abort\<close> is the path through
  \<open>finalize_it\<close> with \<open>iRet \<noteq> RS_RET_OK\<close> and a session that was constructed:
  \<open>*pgf\<close> has not been assigned, so the caller receives no session. The result of
  \<open>readIV\<close> is not assigned to anything.
\<close>

definition rsgcryInitCrypt_abort ::
  "rsRetVal \<Rightarrow> 'h gcryfile \<Rightarrow> world \<Rightarrow> (rsRetVal \<times> 'h gcryfile option \<times> world) option" where
  "rsgcryInitCrypt_abort iRet gf w =
     (case gcryfileDestruct (Some gf) (- 1) w of
        None \<Rightarrow> None
      | Some (r, w') \<Rightarrow> Some (iRet, None, w'))"

definition rsgcryInitCrypt ::
  "'h libgcrypt \<Rightarrow> nat \<Rightarrow> (nat \<Rightarrow> (string \<rightharpoonup> fnode) \<Rightarrow> (string \<rightharpoonup> fnode)) \<Rightarrow>
     gcryctx \<Rightarrow> string \<Rightarrow> char \<Rightarrow> world \<Rightarrow> (rsRetVal \<times> 'h gcryfile option \<times> world) option" where
  "rsgcryInitCrypt g maxfname others c fname om w =
     (case gcryfileConstruct maxfname c fname w of
        (r0, None, w0) \<Rightarrow> Some (r0, None, w0)
      | (r0, Some gf0, w0) \<Rightarrow>
          let gf1 = gf0\<lparr>openMode := om, blkLength := gcry_cipher_get_algo_blklen g (algo c)\<rparr> in
          (case gcry_cipher_open g (algo c) (mode c) of
             None \<Rightarrow> rsgcryInitCrypt_abort RS_RET_ERR gf1 w0
           | Some h \<Rightarrow>
               let gf2 = gf1\<lparr>chd := Some h\<rparr>;
                   w2 = w0\<lparr>cipher_handles := cipher_handles w0 + 1\<rparr>
               in
               (case gcry_cipher_setkey g h (key (ctx gf2)) (keyLen (ctx gf2)) of
                  None \<Rightarrow> rsgcryInitCrypt_abort RS_RET_ERR gf2 w2
                | Some h1 \<Rightarrow>
                    let gf3 = gf2\<lparr>chd := Some h1\<rparr> in
                    (case (if om = CHR ''r''
                           then (case readIV others gf3 w2 of
                                   None \<Rightarrow> None
                                 | Some (r, iv, gf4, w4) \<Rightarrow> Some (iv, gf4, w4))
                           else (case seedIV gf3 w2 of (iv, w4) \<Rightarrow> Some (iv, gf3, w4))) of
                       None \<Rightarrow> None
                     | Some (iv, gf4, w4) \<Rightarrow>
                         (case gcry_cipher_setiv g h1 iv (blkLength gf4) of
                            None \<Rightarrow> rsgcryInitCrypt_abort RS_RET_ERR gf4 w4
                          | Some h2 \<Rightarrow>
                              let gf5 = gf4\<lparr>chd := Some h2\<rparr> in
                              if om = CHR ''w'' then
                                (case eiOpenAppend gf5 w4 of
                                   None \<Rightarrow> None
                                 | Some (r, gf6, w6) \<Rightarrow>
                                     if r \<noteq> RS_RET_OK then rsgcryInitCrypt_abort r gf6 w6
                                     else
                                       (case eiWriteIV gf6 iv w6 of
                                          None \<Rightarrow> None
                                        | Some (r', w7) \<Rightarrow>
                                            if r' \<noteq> RS_RET_OK
                                            then rsgcryInitCrypt_abort r' gf6 w7
                                            else Some (RS_RET_OK, Some gf6, w7)))
                              else Some (RS_RET_OK, Some gf5, w4))))))"

section \<open>Reading a decimal text\<close>

text \<open>
  The number that a decimal text denotes, with an optional leading minus sign. It states
  what "decimal representation" means for the \<open>END\<close> record.
\<close>

definition dec_value :: "string \<Rightarrow> nat" where
  "dec_value s = foldl (\<lambda>a c. 10 * a + (of_char c - 48)) 0 s"

definition lld_value :: "string \<Rightarrow> int" where
  "lld_value s =
     (case s of
        [] \<Rightarrow> 0
      | c # cs \<Rightarrow> if c = CHR ''-'' then - int (dec_value cs) else int (dec_value s))"

section \<open>Frame conditions\<close>

text \<open>
  \<open>session_kept gf gf'\<close>: the two sessions agree on every field that the side-file
  functions do not assign. \<open>others_kept d w w'\<close>: the two process states agree on
  every open descriptor other than \<open>d\<close> and on the open cipher handles.
\<close>

definition session_kept :: "'h gcryfile \<Rightarrow> 'h gcryfile \<Rightarrow> bool" where
  "session_kept gf gf' \<longleftrightarrow>
     chd gf' = chd gf \<and> blkLength gf' = blkLength gf \<and> eiName gf' = eiName gf
     \<and> openMode gf' = openMode gf \<and> ctx gf' = ctx gf"

definition others_kept :: "int \<Rightarrow> world \<Rightarrow> world \<Rightarrow> bool" where
  "others_kept d w w' \<longleftrightarrow>
     filter (\<lambda>e. fst e \<noteq> d) (fdtab w') = filter (\<lambda>e. fst e \<noteq> d) (fdtab w)
     \<and> cipher_handles w' = cipher_handles w"

section \<open>Concrete instances for the examples\<close>

text \<open>
  A cipher capability whose encryption and decryption are the same byte-wise XOR, so that
  decryption inverts encryption; block length 16, key length 16. \<open>stuck_cipher\<close> is the
  same capability with a \<open>gcry_cipher_setkey\<close> that fails. \<open>ctx0\<close> is a context as
  \<open>gcryCtxNew\<close> makes it; \<open>sess16\<close> is a session that is open for writing.
\<close>

definition xor_cipher :: "unit libgcrypt" where
  "xor_cipher =
     \<lparr>gcry_cipher_get_algo_keylen = (\<lambda>a. 16),
      gcry_cipher_get_algo_blklen = (\<lambda>a. 16),
      gcry_cipher_open = (\<lambda>a m. Some ()),
      gcry_cipher_setkey = (\<lambda>h k n. Some h),
      gcry_cipher_setiv = (\<lambda>h iv n. Some h),
      gcry_cipher_encrypt = (\<lambda>h b. Some (h, map (\<lambda>x. x XOR 0x5a) b)),
      gcry_cipher_decrypt = (\<lambda>h b. Some (h, map (\<lambda>x. x XOR 0x5a) b))\<rparr>"

definition stuck_cipher :: "unit libgcrypt" where
  "stuck_cipher = xor_cipher\<lparr>gcry_cipher_setkey := (\<lambda>h k n. None)\<rparr>"

definition ctx0 :: gcryctx where
  "ctx0 = \<lparr>key = None, keyLen = 0, algo = GCRY_CIPHER_AES128, mode = GCRY_CIPHER_MODE_CBC\<rparr>"

definition sess16 :: "unit gcryfile" where
  "sess16 =
     \<lparr>chd = Some (), blkLength = 16, eiName = Some ''log.encinfo'', fd = 3,
      openMode = CHR ''w'', ctx = ctx0, readBuf = NULL, readBufIdx = 0, readBufMaxIdx = 0\<rparr>"

text \<open>
  \<open>world0\<close> is a process state with an empty file system and no open descriptor.
\<close>

definition world0 :: world where
  "world0 = \<lparr>files = Map.empty, may_create = True, avail = 1000, fdtab = [],
              mallocs_left = 10, uninit = (\<lambda>k. 0xaa), cipher_handles = 0\<rparr>"

text \<open>
  \<open>world_log\<close> has an empty side-file \<open>log.encinfo\<close>, descriptor 3 open on it for
  appending and descriptor 4 open on it for reading. \<open>writer\<close> and \<open>reader\<close> are
  sessions that hold these descriptors.
\<close>

definition world_log :: world where
  "world_log =
     world0\<lparr>files := [''log.encinfo'' \<mapsto> \<lparr>readable = True, writable = True, content = []\<rparr>],
            fdtab := [(3, \<lparr>fd_path = ''log.encinfo'', fd_wronly = True, fd_append = True,
                           fd_pos = 0\<rparr>),
                      (4, \<lparr>fd_path = ''log.encinfo'', fd_wronly = False, fd_append = False,
                           fd_pos = 0\<rparr>)]\<rparr>"

definition writer :: "unit gcryfile" where
  "writer = sess16"

definition reader :: "unit gcryfile" where
  "reader = sess16\<lparr>fd := 4, openMode := CHR ''r''\<rparr>"

text \<open>
  \<open>world_with bytes\<close> is \<open>world_log\<close> with the given bytes in the side-file;
  \<open>nobody\<close> is a system in which no other process touches the file system.
\<close>

definition world_with :: "string \<Rightarrow> world" where
  "world_with bytes =
     world_log\<lparr>files := [''log.encinfo'' \<mapsto> \<lparr>readable = True, writable = True,
                                                content = bytes\<rparr>]\<rparr>"

definition nobody :: "nat \<Rightarrow> (string \<rightharpoonup> fnode) \<Rightarrow> (string \<rightharpoonup> fnode)" where
  "nobody n fs = fs"

text \<open>
  Three more capabilities: one whose \<open>gcry_cipher_open\<close> fails, one whose
  \<open>gcry_cipher_setiv\<close> rejects a \<open>NULL\<close> IV and accepts every other, and
  \<open>stuck_cipher\<close> from above.
\<close>

definition closed_cipher :: "unit libgcrypt" where
  "closed_cipher = xor_cipher\<lparr>gcry_cipher_open := (\<lambda>a m. None)\<rparr>"

definition nulliv_cipher :: "unit libgcrypt" where
  "nulliv_cipher =
     xor_cipher\<lparr>gcry_cipher_setiv := (\<lambda>h iv n. case iv of None \<Rightarrow> None | Some b \<Rightarrow> Some h)\<rparr>"

text \<open>
  \<open>good_sidefile\<close>: a side-file as a writer leaves it after \<open>rsgcryInitCrypt\<close> with
  a 16-byte IV. \<open>bad_sidefile\<close>: bytes that are not a side-file.
\<close>

definition good_sidefile :: string where
  "good_sidefile =
     ''FILETYPE:rsyslog-enrcyption-info'' @ [CHR 0x0A]
     @ ''IV:000102030405060708090a0b0c0d0e0f'' @ [CHR 0x0A]"

definition bad_sidefile :: string where
  "bad_sidefile = ''this is not a side-file'' @ [CHR 0x0A]"

section \<open>Rules for evaluating the model on concrete inputs\<close>

lemmas io_defs = Let_def eiWriteRec_def writev_def read_fd_def fdtab_put_def close_fd_def
  eiRead_def eiReadChar_def readBuf_fetch_def eiGetRecord_def
  EIF_MAX_RECTYPE_LEN_def EIF_MAX_VALUE_LEN_def READBUF_SIZE_def

lemmas fixture_defs = writer_def reader_def sess16_def world_with_def world_log_def world0_def
  xor_cipher_def stuck_cipher_def closed_cipher_def nulliv_cipher_def ctx0_def nobody_def
  good_sidefile_def bad_sidefile_def

lemmas init_defs = rsgcryInitCrypt_def rsgcryInitCrypt_abort_def gcryfileConstruct_def
  gcryfileDestruct_def eiClose_def readIV_def readIV_loop.simps eiOpenRead_def open_path_def
  lowest_free_def eiCheckFiletype_def malloc_def seedIV_def eiOpenAppend_def eiWriteIV_def
  cstr_def ENCINFO_SUFFIX_def RSGCRY_FILETYPE_NAME_def
  GCRY_CIPHER_AES128_def GCRY_CIPHER_MODE_CBC_def eiGetIV_def hex_nibble_def hexchars_def
  eiGetRecord_rectype.simps eiGetRecord_value.simps eiGetIV_loop.simps
  printf_lld_def dec_digits.simps

section \<open>Properties of the padding scheme\<close>

lemma addPadding_loop_fills:
  "\<lbrakk>i \<le> nPad; nPad < 2 ^ 32; plen + nPad \<le> length buf\<rbrakk> \<Longrightarrow>
   addPadding_loop buf plen nPad i =
     Some (take (plen + i) buf @ replicate (nPad - i) 0 @ drop (plen + nPad) buf)"
proof (induction "nPad - i" arbitrary: i buf)
  case 0
  then have "i = nPad" by simp
  then show ?case by (simp add: addPadding_loop.simps)
next
  case (Suc k)
  then have lt: "i < nPad" by simp
  with Suc.prems have inb: "plen + i < length buf" by simp
  from lt Suc.prems have nowrap: "(i + 1) mod 2 ^ 32 = i + 1" by simp
  have k: "k = nPad - (i + 1)" using Suc.hyps(2) by simp
  have step: "addPadding_loop (buf[plen + i := 0]) plen nPad (i + 1) =
      Some (take (plen + (i + 1)) (buf[plen + i := 0]) @ replicate (nPad - (i + 1)) 0
            @ drop (plen + nPad) (buf[plen + i := 0]))"
    using Suc.hyps(1) [OF k] lt Suc.prems by simp
  have tk: "take (plen + (i + 1)) (buf[plen + i := 0]) = take (plen + i) buf @ [0]"
    using inb by (simp add: take_Suc_conv_app_nth)
  have dr: "drop (plen + nPad) (buf[plen + i := 0]) = drop (plen + nPad) buf"
    using lt by simp
  have rp: "replicate (nPad - i) (0::uchar) = 0 # replicate (nPad - (i + 1)) 0"
    using lt by (cases "nPad - i") simp_all
  have "addPadding_loop buf plen nPad i =
      addPadding_loop (buf[plen + i := 0]) plen nPad (i + 1)"
    using lt inb nowrap by (subst addPadding_loop.simps) simp
  then show ?case by (simp only: step tk dr rp) simp
qed

text \<open>
  C7. For a positive block length, \<open>addPadding\<close> overwrites the
  \<open>(blkLength - len mod blkLength) mod blkLength\<close> bytes that follow the first \<open>len\<close>
  bytes with zero bytes and adds that number to the length; the new length is a multiple
  of the block length, and fewer than \<open>blkLength\<close> bytes are added (none when the
  length is aligned already). The buffer has room for the padding, and the block length
  fits the \<open>unsigned\<close> loop counter.
\<close>

theorem addPadding_block_aligned:
  assumes "0 < blkLength pF"
    and "blkLength pF \<le> 2 ^ 32"
    and "plen + (blkLength pF - plen mod blkLength pF) mod blkLength pF \<le> length buf"
  shows "addPadding pF buf plen =
           Some (take plen buf
                   @ replicate ((blkLength pF - plen mod blkLength pF) mod blkLength pF) 0
                   @ drop (plen + (blkLength pF - plen mod blkLength pF) mod blkLength pF) buf,
                 plen + (blkLength pF - plen mod blkLength pF) mod blkLength pF)
         \<and> (plen + (blkLength pF - plen mod blkLength pF) mod blkLength pF) mod blkLength pF = 0
         \<and> (blkLength pF - plen mod blkLength pF) mod blkLength pF < blkLength pF
         \<and> (plen mod blkLength pF = 0 \<longrightarrow>
              (blkLength pF - plen mod blkLength pF) mod blkLength pF = 0)"
proof -
  define B where "B = blkLength pF"
  define n where "n = (B - plen mod B) mod B"
  have B: "0 < B" "B \<le> 2 ^ 32" and cap: "plen + n \<le> length buf"
    using assms by (simp_all add: B_def n_def)
  have nlt: "n < B" using B by (simp add: n_def)
  then have n32: "n < 2 ^ 32" using B by simp
  have loop: "addPadding_loop buf plen n 0 =
      Some (take plen buf @ replicate n 0 @ drop (plen + n) buf)"
    using addPadding_loop_fills [of 0 n plen buf] n32 cap by simp
  have run: "addPadding pF buf plen =
      Some (take plen buf @ replicate n 0 @ drop (plen + n) buf, plen + n)"
    using B loop by (simp add: addPadding_def B_def [symmetric] n_def [symmetric] Let_def)
  have "(plen + (B - plen mod B)) mod B = 0"
  proof -
    have "plen mod B \<le> B" using B by (simp add: less_imp_le)
    then have "plen + (B - plen mod B) = (plen - plen mod B) + B"
      by simp
    also have "\<dots> = (plen div B) * B + B"
      by (simp add: minus_mod_eq_div_mult)
    finally show ?thesis by simp
  qed
  then have al: "(plen + n) mod B = 0"
    unfolding n_def by (metis mod_add_right_eq)
  have z: "plen mod B = 0 \<longrightarrow> n = 0" by (simp add: n_def)
  show ?thesis
    using run al nlt z by (simp add: B_def [symmetric] n_def [symmetric])
qed

theorem addPadding_block_aligned_witness:
  "addPadding sess16 [1, 2, 3, 4, 5, 6, 7, 8, 9, 10, 11, 12, 13, 14, 15, 16, 17] 14 =
     Some ([1, 2, 3, 4, 5, 6, 7, 8, 9, 10, 11, 12, 13, 14, 0, 0, 17], 16)
   \<and> addPadding sess16 [1, 2, 3, 4, 5, 6, 7, 8, 9, 10, 11, 12, 13, 14, 15, 16, 17] 16 =
     Some ([1, 2, 3, 4, 5, 6, 7, 8, 9, 10, 11, 12, 13, 14, 15, 16, 17], 16)"
proof -
  have h1: "0 < blkLength sess16" and h2: "blkLength sess16 \<le> 2 ^ 32"
    by (simp_all add: sess16_def)
  have h3: "14 + (blkLength sess16 - 14 mod blkLength sess16) mod blkLength sess16
      \<le> length [1, 2, 3, 4, 5, 6, 7, 8, 9, 10, 11, 12, 13, 14, 15, 16, 17 :: uchar]"
    and h4: "16 + (blkLength sess16 - 16 mod blkLength sess16) mod blkLength sess16
      \<le> length [1, 2, 3, 4, 5, 6, 7, 8, 9, 10, 11, 12, 13, 14, 15, 16, 17 :: uchar]"
    by (simp_all add: sess16_def)
  have two: "replicate 2 (0 :: uchar) = [0, 0]"
    by (simp add: numeral_2_eq_2)
  have a: "addPadding sess16 [1, 2, 3, 4, 5, 6, 7, 8, 9, 10, 11, 12, 13, 14, 15, 16, 17] 14 =
     Some ([1, 2, 3, 4, 5, 6, 7, 8, 9, 10, 11, 12, 13, 14, 0, 0, 17], 16)"
    using addPadding_block_aligned [OF h1 h2 h3] by (simp add: sess16_def two)
  have b: "addPadding sess16 [1, 2, 3, 4, 5, 6, 7, 8, 9, 10, 11, 12, 13, 14, 15, 16, 17] 16 =
     Some ([1, 2, 3, 4, 5, 6, 7, 8, 9, 10, 11, 12, 13, 14, 15, 16, 17], 16)"
    using addPadding_block_aligned [OF h1 h2 h4] by (simp add: sess16_def)
  from a b show ?thesis by (rule conjI)
qed

text \<open>
  What \<open>removePadding\<close> does when a zero byte lies among the first \<open>*plen\<close> bytes:
  the bytes in use are compacted to their non-zero bytes, in order, the new length is
  their number, and the bytes beyond the old length stay as they are.
\<close>

lemma strchr_zero:
  "0 \<in> set buf \<Longrightarrow> strchr buf 0 = Some (Some (length (takeWhile (\<lambda>b. b \<noteq> 0) buf)))"
  by (induction buf) auto

lemma strchr_zero_none: "0 \<notin> set buf \<Longrightarrow> strchr buf 0 = None"
  by (induction buf) auto

lemma removePadding_loop_compacts:
  "\<lbrakk>iDst \<le> iSrc; iSrc \<le> len; len \<le> length buf\<rbrakk> \<Longrightarrow>
   \<exists>buf'. removePadding_loop buf len iSrc iDst =
            Some (buf', iDst + length (filter (\<lambda>b. b \<noteq> 0) (take (len - iSrc) (drop iSrc buf))))
     \<and> take (iDst + length (filter (\<lambda>b. b \<noteq> 0) (take (len - iSrc) (drop iSrc buf)))) buf'
         = take iDst buf @ filter (\<lambda>b. b \<noteq> 0) (take (len - iSrc) (drop iSrc buf))
     \<and> length buf' = length buf \<and> drop len buf' = drop len buf"
proof (induction "len - iSrc" arbitrary: buf iSrc iDst)
  case 0
  then have "iSrc = len" by simp
  then show ?case by (subst removePadding_loop.simps) simp
next
  case (Suc k)
  then have lt: "iSrc < len" and inb: "iSrc < length buf" and dl: "iDst < length buf"
    by simp_all
  have k: "k = len - (iSrc + 1)" using Suc.hyps(2) by simp
  have d1: "drop iSrc buf = buf ! iSrc # drop (iSrc + 1) buf"
    using inb by (simp add: Cons_nth_drop_Suc)
  have d2: "len - iSrc = Suc (len - (iSrc + 1))"
    using lt by simp
  have split: "take (len - iSrc) (drop iSrc buf)
                 = buf ! iSrc # take (len - (iSrc + 1)) (drop (iSrc + 1) buf)"
    by (simp only: d1 d2 take_Suc_Cons)
  show ?case
  proof (cases "buf ! iSrc = 0")
    case True
    have step: "removePadding_loop buf len iSrc iDst = removePadding_loop buf len (iSrc + 1) iDst"
      using lt inb True by (subst removePadding_loop.simps) simp
    from Suc.hyps(1) [OF k, of iDst buf] Suc.prems lt
    obtain buf' where
      "removePadding_loop buf len (iSrc + 1) iDst =
         Some (buf', iDst + length (filter (\<lambda>b. b \<noteq> 0)
                                     (take (len - (iSrc + 1)) (drop (iSrc + 1) buf))))"
      "take (iDst + length (filter (\<lambda>b. b \<noteq> 0)
                             (take (len - (iSrc + 1)) (drop (iSrc + 1) buf)))) buf'
         = take iDst buf @ filter (\<lambda>b. b \<noteq> 0) (take (len - (iSrc + 1)) (drop (iSrc + 1) buf))"
      "length buf' = length buf" "drop len buf' = drop len buf"
      by auto
    then show ?thesis unfolding step split using True by auto
  next
    case False
    let ?b2 = "buf[iDst := buf ! iSrc]"
    have step: "removePadding_loop buf len iSrc iDst
                  = removePadding_loop ?b2 len (iSrc + 1) (iDst + 1)"
      using lt inb dl False by (subst removePadding_loop.simps) simp
    have e2: "drop (iSrc + 1) ?b2 = drop (iSrc + 1) buf"
      using Suc.prems(1) by simp
    have t2: "take (iDst + 1) ?b2 = take iDst buf @ [buf ! iSrc]"
      using dl by (simp add: take_Suc_conv_app_nth)
    have l2: "drop len ?b2 = drop len buf"
      using Suc.prems(1) lt by simp
    from Suc.hyps(1) [OF k, of "iDst + 1" ?b2] Suc.prems lt
    obtain buf' where
      "removePadding_loop ?b2 len (iSrc + 1) (iDst + 1) =
         Some (buf', iDst + 1 + length (filter (\<lambda>b. b \<noteq> 0)
                                     (take (len - (iSrc + 1)) (drop (iSrc + 1) ?b2))))"
      "take (iDst + 1 + length (filter (\<lambda>b. b \<noteq> 0)
                             (take (len - (iSrc + 1)) (drop (iSrc + 1) ?b2)))) buf'
         = take (iDst + 1) ?b2
           @ filter (\<lambda>b. b \<noteq> 0) (take (len - (iSrc + 1)) (drop (iSrc + 1) ?b2))"
      "length buf' = length ?b2" "drop len buf' = drop len ?b2"
      by auto
    then show ?thesis unfolding step split e2 t2 l2 using False by auto
  qed
qed

lemma removePadding_compacts:
  assumes z: "0 \<in> set (take plen buf)" and le: "plen \<le> length buf" and sm: "length buf < 2 ^ 32"
  shows "\<exists>buf'. removePadding buf plen
            = Some (buf', length (filter (\<lambda>b. b \<noteq> 0) (take plen buf)))
         \<and> take (length (filter (\<lambda>b. b \<noteq> 0) (take plen buf))) buf'
             = filter (\<lambda>b. b \<noteq> 0) (take plen buf)
         \<and> length buf' = length buf \<and> drop plen buf' = drop plen buf"
proof -
  let ?nz = "\<lambda>b::uchar. b \<noteq> 0"
  define p where "p = length (takeWhile ?nz buf)"
  from z have zb: "0 \<in> set buf" by (auto dest: in_set_takeD)
  have tp: "take p buf = takeWhile ?nz buf"
    by (simp add: p_def takeWhile_eq_take [symmetric])
  have plt: "p < plen"
  proof (rule ccontr)
    assume "\<not> p < plen"
    then have "take plen buf = take plen (take p buf)" by (simp add: min_def)
    then have "set (take plen buf) \<subseteq> set (takeWhile ?nz buf)"
      unfolding tp by (simp add: set_take_subset)
    with z show False by (auto dest: set_takeWhileD)
  qed
  have fp: "filter ?nz (take p buf) = take p buf"
    unfolding tp by (auto simp: filter_id_conv dest: set_takeWhileD)
  have sp: "take plen buf = take p buf @ take (plen - p) (drop p buf)"
    using take_add [of p "plen - p" buf] plt by simp
  have "p \<le> length buf" using plt le by simp
  then have lp: "length (take p buf) = p" by simp
  have m1: "plen mod 4294967296 = plen" and m2: "p mod 4294967296 = p"
    using plt le sm by simp_all
  from removePadding_loop_compacts [of p p plen buf] plt le
  obtain buf' where r:
    "removePadding_loop buf plen p p =
       Some (buf', p + length (filter ?nz (take (plen - p) (drop p buf))))"
    "take (p + length (filter ?nz (take (plen - p) (drop p buf)))) buf'
       = take p buf @ filter ?nz (take (plen - p) (drop p buf))"
    "length buf' = length buf" "drop plen buf' = drop plen buf"
    by auto
  have f: "filter ?nz (take plen buf)
             = take p buf @ filter ?nz (take (plen - p) (drop p buf))"
    by (subst sp) (simp add: fp)
  have n: "length (filter ?nz (take plen buf))
             = p + length (filter ?nz (take (plen - p) (drop p buf)))"
    by (simp only: f length_append lp)
  have "removePadding buf plen = removePadding_loop buf plen p p"
    by (simp add: removePadding_def strchr_zero [OF zb] p_def [symmetric] m1 m2)
  with r n f show ?thesis by auto
qed

text \<open>
  C2, at an input where the code departs from it. The first four bytes of the buffer hold
  no zero byte; \<open>strchr\<close> runs on to the zero byte at index 5 of the allocation, the
  loop is not entered, and the length comes back as 5 instead of 4.
\<close>

theorem removePadding_length_grows:
  "removePadding [1, 2, 3, 4, 5, 0] 4 = Some ([1, 2, 3, 4, 5, 0], 5)"
  by (simp add: removePadding_def removePadding_loop.simps)

text \<open>
  Where padding is added (the length is not a multiple of the block length), encryption
  followed by decryption gives back the bytes and the length of a buffer without zero
  byte, for a cipher whose decryption inverts its encryption.
\<close>

lemma roundtrip_unaligned:
  fixes g :: "'h libgcrypt"
  defines "nPad pF len \<equiv> (blkLength pF - len mod blkLength pF) mod blkLength pF"
  assumes B: "0 < blkLength pF" "blkLength pF \<le> 2 ^ 32"
    and un: "len mod blkLength pF \<noteq> 0"
    and nz: "0 \<notin> set (take len buf)"
    and cap: "len + nPad pF len \<le> length buf" "length buf < 2 ^ 32"
    and h: "chd pF = Some h"
    and enc: "gcry_cipher_encrypt g h (take len buf @ replicate (nPad pF len) 0) = Some (h', out)"
    and lo: "length out = len + nPad pF len"
    and hD: "chd pD = Some h2"
    and dec: "gcry_cipher_decrypt g h2 out = Some (h3, take len buf @ replicate (nPad pF len) 0)"
  shows "rsgcryEncrypt g pF buf len =
           Some (RS_RET_OK, pF\<lparr>chd := Some h'\<rparr>, out @ drop (len + nPad pF len) buf,
                 len + nPad pF len)
         \<and> (\<exists>buf'. rsgcryDecrypt g pD (out @ drop (len + nPad pF len) buf) (len + nPad pF len)
                      = Some (RS_RET_OK, pD\<lparr>chd := Some h3\<rparr>, buf', len)
                   \<and> take len buf' = take len buf)"
proof -
  define n where "n = nPad pF len"
  define B where "B = blkLength pF"
  have n_def': "n = (B - len mod B) mod B" by (simp add: n_def nPad_def B_def)
  have Bp: "0 < B" "B \<le> 2 ^ 32" using B by (simp_all add: B_def)
  have lm: "len mod B < B" using Bp by simp
  have npos: "0 < n" using un lm by (simp add: n_def' B_def [symmetric])
  have nlt: "n < B" using Bp by (simp add: n_def')
  have n32: "n < 2 ^ 32" using nlt Bp by simp
  have capn: "len + n \<le> length buf" using cap(1) by (simp add: n_def)
  have lenpos: "len \<noteq> 0" using un by (cases "len = 0") simp_all
  have lb: "len \<le> length buf" using capn by simp
  let ?pad = "take len buf @ replicate n 0"
  let ?bufp = "?pad @ drop (len + n) buf"
  have ap: "addPadding pF buf len = Some (?bufp, len + n)"
    using Bp addPadding_loop_fills [of 0 n len buf] n32 capn
    by (simp add: addPadding_def B_def [symmetric] n_def' [symmetric] Let_def)
  have tpad: "take (len + n) ?bufp = ?pad" using lb by simp
  have dpad: "drop (len + n) ?bufp = drop (len + n) buf" using lb by simp
  have lpad: "length ?bufp = length buf" using capn by simp
  have e: "rsgcryEncrypt g pF buf len =
           Some (RS_RET_OK, pF\<lparr>chd := Some h'\<rparr>, out @ drop (len + n) buf, len + n)"
    using lenpos ap h enc capn lb
    by (simp add: rsgcryEncrypt_def n_def [symmetric] del: append_assoc)
  have lo': "length out = len + n" using lo by (simp add: n_def)
  let ?enc = "out @ drop (len + n) buf"
  have tenc: "take (len + n) ?enc = out" using lo by (simp add: n_def)
  have denc: "drop (len + n) ?enc = drop (len + n) buf" using lo by (simp add: n_def)
  have lenc: "len + n \<le> length ?enc" using lo by (simp add: n_def)
  have z: "0 \<in> set (take (len + n) ?bufp)"
    unfolding tpad using npos by simp
  have fl: "filter (\<lambda>b. b \<noteq> 0) (take (len + n) ?bufp) = take len buf"
    unfolding tpad using nz by (auto simp: filter_id_conv)
  from removePadding_compacts [OF z] lpad capn cap(2)
  obtain buf' where r:
    "removePadding ?bufp (len + n)
       = Some (buf', length (filter (\<lambda>b. b \<noteq> 0) (take (len + n) ?bufp)))"
    "take (length (filter (\<lambda>b. b \<noteq> 0) (take (len + n) ?bufp))) buf'
       = filter (\<lambda>b. b \<noteq> 0) (take (len + n) ?bufp)"
    by auto
  have ll: "length (take len buf) = len" using lb by simp
  from r have r': "removePadding ?bufp (len + n) = Some (buf', len)" "take len buf' = take len buf"
    unfolding fl ll by simp_all
  have d: "rsgcryDecrypt g pD ?enc (len + n) = Some (RS_RET_OK, pD\<lparr>chd := Some h3\<rparr>, buf', len)"
    using hD dec lo' r'(1)
    by (simp add: rsgcryDecrypt_def n_def [symmetric] del: append_assoc)
  from e d r'(2) show ?thesis by (auto simp: n_def)
qed

text \<open>
  C1, at an input where the code departs from it. A buffer of 16 bytes without a zero
  byte (one cipher block, so no padding is added) lies in an allocation whose next two
  bytes are \<open>0x41\<close> and \<open>0\<close>. Encryption succeeds; decryption of its output restores
  the 16 bytes but reports the length 17.
\<close>

theorem roundtrip_aligned_length_grows:
  "rsgcryEncrypt xor_cipher sess16
       [1, 2, 3, 4, 5, 6, 7, 8, 9, 10, 11, 12, 13, 14, 15, 16, 0x41, 0] 16
     = Some (RS_RET_OK, sess16,
             [0x5b, 0x58, 0x59, 0x5e, 0x5f, 0x5c, 0x5d, 0x52, 0x53, 0x50, 0x51, 0x56, 0x57,
              0x54, 0x55, 0x4a, 0x41, 0], 16)
   \<and> rsgcryDecrypt xor_cipher sess16
       [0x5b, 0x58, 0x59, 0x5e, 0x5f, 0x5c, 0x5d, 0x52, 0x53, 0x50, 0x51, 0x56, 0x57,
        0x54, 0x55, 0x4a, 0x41, 0] 16
     = Some (RS_RET_OK, sess16,
             [1, 2, 3, 4, 5, 6, 7, 8, 9, 10, 11, 12, 13, 14, 15, 16, 0x41, 0], 17)"
proof -
  have enc: "rsgcryEncrypt xor_cipher sess16
       [1, 2, 3, 4, 5, 6, 7, 8, 9, 10, 11, 12, 13, 14, 15, 16, 0x41, 0] 16
     = Some (RS_RET_OK, sess16,
             [0x5b, 0x58, 0x59, 0x5e, 0x5f, 0x5c, 0x5d, 0x52, 0x53, 0x50, 0x51, 0x56, 0x57,
              0x54, 0x55, 0x4a, 0x41, 0], 16)"
    by (simp add: rsgcryEncrypt_def addPadding_def sess16_def addPadding_loop.simps
        xor_cipher_def)
  have dec: "rsgcryDecrypt xor_cipher sess16
       [0x5b, 0x58, 0x59, 0x5e, 0x5f, 0x5c, 0x5d, 0x52, 0x53, 0x50, 0x51, 0x56, 0x57,
        0x54, 0x55, 0x4a, 0x41, 0] 16
     = Some (RS_RET_OK, sess16,
             [1, 2, 3, 4, 5, 6, 7, 8, 9, 10, 11, 12, 13, 14, 15, 16, 0x41, 0], 17)"
    by (simp add: rsgcryDecrypt_def removePadding_def sess16_def removePadding_loop.simps
        xor_cipher_def)
  from enc dec show ?thesis by (rule conjI)
qed

section \<open>Setting the key\<close>

text \<open>
  C6. The algorithm's required key length is positive and fits \<open>uint16_t\<close>, and
  \<open>keyLen\<close> is the length of the key passed. If the key length differs from the
  required length, \<open>rsgcrySetKey\<close> returns the required length, which is positive, and
  the context is unchanged. If it is equal and the allocation of the copy succeeds,
  \<open>rsgcrySetKey\<close> returns 0 and the context holds a copy of the key and its length.
\<close>

theorem rsgcrySetKey_checks_length:
  assumes pos: "0 < gcry_cipher_get_algo_keylen g (algo c)"
    and small: "gcry_cipher_get_algo_keylen g (algo c) < 2 ^ 16"
    and len: "length k = unat kLen"
  shows "(unat kLen \<noteq> gcry_cipher_get_algo_keylen g (algo c) \<longrightarrow>
            rsgcrySetKey g c k kLen w = Some (int (gcry_cipher_get_algo_keylen g (algo c)), c, w)
            \<and> 0 < int (gcry_cipher_get_algo_keylen g (algo c)))
       \<and> (unat kLen = gcry_cipher_get_algo_keylen g (algo c) \<and> 0 < mallocs_left w \<longrightarrow>
            rsgcrySetKey g c k kLen w =
              Some (0, c\<lparr>keyLen := length k, key := Some k\<rparr>,
                    w\<lparr>mallocs_left := mallocs_left w - 1\<rparr>))"
proof -
  define req where "req = gcry_cipher_get_algo_keylen g (algo c)"
  define r16 where "r16 = (of_nat req :: 16 word)"
  have un: "unat r16 = req"
    using small by (simp add: r16_def req_def unat_of_nat)
  then have ui: "uint r16 = int req"
    by (simp add: uint_nat)
  have eq: "kLen = r16 \<longleftrightarrow> unat kLen = req"
    using un by (simp add: word_unat_eq_iff)
  have a: "unat kLen \<noteq> req \<Longrightarrow> rsgcrySetKey g c k kLen w = Some (int req, c, w)"
    using eq ui by (simp add: rsgcrySetKey_def req_def [symmetric] r16_def [symmetric])
  have b: "unat kLen = req \<Longrightarrow> 0 < mallocs_left w \<Longrightarrow>
      rsgcrySetKey g c k kLen w =
        Some (0, c\<lparr>keyLen := length k, key := Some k\<rparr>, w\<lparr>mallocs_left := mallocs_left w - 1\<rparr>)"
    using eq len
    by (simp add: rsgcrySetKey_def req_def [symmetric] r16_def [symmetric] malloc_def)
  show ?thesis
    using a b pos by (simp add: req_def [symmetric])
qed

theorem rsgcrySetKey_checks_length_witness:
  "rsgcrySetKey xor_cipher ctx0 [1, 2, 3] 3 world0 = Some (16, ctx0, world0)
   \<and> rsgcrySetKey xor_cipher ctx0 [1, 2, 3, 4, 5, 6, 7, 8, 9, 10, 11, 12, 13, 14, 15, 16] 16 world0
       = Some (0, ctx0\<lparr>keyLen := 16, key := Some [1, 2, 3, 4, 5, 6, 7, 8, 9, 10, 11, 12, 13, 14, 15, 16]\<rparr>,
               world0\<lparr>mallocs_left := 9\<rparr>)"
proof -
  have p: "0 < gcry_cipher_get_algo_keylen xor_cipher (algo ctx0)"
    and s: "gcry_cipher_get_algo_keylen xor_cipher (algo ctx0) < 2 ^ 16"
    by (simp_all add: xor_cipher_def)
  have l1: "length [1, 2, 3 :: uchar] = unat (3 :: 16 word)" by simp
  have l2: "length [1, 2, 3, 4, 5, 6, 7, 8, 9, 10, 11, 12, 13, 14, 15, 16 :: uchar] = unat (16 :: 16 word)"
    by simp
  show ?thesis
    using rsgcrySetKey_checks_length [OF p s l1, of world0]
      rsgcrySetKey_checks_length [OF p s l2, of world0]
    by (simp add: xor_cipher_def world0_def)
qed

section \<open>Record codec and IV decoding on concrete side-files\<close>

text \<open>
  C3, at an input where the code departs from it. A record whose type has 31 bytes (none
  of them a colon) and whose value is \<open>x\<close> is written with \<open>eiWriteRec\<close> through a
  descriptor open for appending; the write succeeds and the side-file holds the 34 bytes.
  \<open>eiGetRecord\<close> on a descriptor that reads the same file from its start returns
  \<open>RS_RET_ERR\<close>: its first loop ends after 31 characters without having met the colon.
\<close>

theorem record_type_31_bytes_not_read_back:
  "(case eiWriteRec writer ''AAAAAAAAAAAAAAAAAAAAAAAAAAAAAAA:'' 32 ''x'' 1 world_log of
      None \<Rightarrow> None
    | Some (r, w1) \<Rightarrow>
        (case eiGetRecord reader w1 of
           None \<Rightarrow> None
         | Some (r', rectype, val, gf, w2) \<Rightarrow>
             Some (r, map_option content (files w1 ''log.encinfo''), r', rectype, val)))
   = Some (RS_RET_OK, Some (''AAAAAAAAAAAAAAAAAAAAAAAAAAAAAAA:x'' @ [CHR 0x0A]), RS_RET_ERR,
           ''AAAAAAAAAAAAAAAAAAAAAAAAAAAAAAA'', [])"
  by (simp add: io_defs writer_def reader_def sess16_def world_log_def world0_def
      eiGetRecord_rectype.simps eiGetRecord_value.simps)

text \<open>The same round trip with a type of 30 bytes gives the record back.\<close>

lemma record_type_30_bytes_read_back:
  "(case eiWriteRec writer ''AAAAAAAAAAAAAAAAAAAAAAAAAAAAAA:'' 31 ''x'' 1 world_log of
      None \<Rightarrow> None
    | Some (r, w1) \<Rightarrow>
        (case eiGetRecord reader w1 of
           None \<Rightarrow> None
         | Some (r', rectype, val, gf, w2) \<Rightarrow>
             Some (r, map_option content (files w1 ''log.encinfo''), r', rectype, val)))
   = Some (RS_RET_OK, Some (''AAAAAAAAAAAAAAAAAAAAAAAAAAAAAA:x'' @ [CHR 0x0A]), RS_RET_OK,
           ''AAAAAAAAAAAAAAAAAAAAAAAAAAAAAA'', ''x'')"
  by (simp add: io_defs writer_def reader_def sess16_def world_log_def world0_def
      eiGetRecord_rectype.simps eiGetRecord_value.simps)

text \<open>
  C5, at an input where the code departs from it. The side-file holds an \<open>IV\<close> record
  of 33 lowercase hex digits and the expected length is 16 bytes. \<open>33 / 2 = 16\<close>, so
  the length test passes, and the last digit is stored at \<open>iv[16]\<close>. With the 16-byte
  block that \<open>readIV\<close> allocates this write is outside the block (first equation); in a
  block with one byte to spare \<open>eiGetIV\<close> returns \<open>RS_RET_OK\<close> and 17 bytes are set
  (second equation). It does not return an error.
\<close>

theorem eiGetIV_accepts_odd_length:
  "eiGetIV reader
     (Some [0xaa, 0xaa, 0xaa, 0xaa, 0xaa, 0xaa, 0xaa, 0xaa,
            0xaa, 0xaa, 0xaa, 0xaa, 0xaa, 0xaa, 0xaa, 0xaa]) 16
     (world_with (''IV:000102030405060708090a0b0c0d0e0ff'' @ [CHR 0x0A])) = None
   \<and> map_option (\<lambda>(r, iv, gf, w). (r, iv))
       (eiGetIV reader
          (Some [0xaa, 0xaa, 0xaa, 0xaa, 0xaa, 0xaa, 0xaa, 0xaa,
                 0xaa, 0xaa, 0xaa, 0xaa, 0xaa, 0xaa, 0xaa, 0xaa, 0xaa]) 16
          (world_with (''IV:000102030405060708090a0b0c0d0e0ff'' @ [CHR 0x0A])))
     = Some (RS_RET_OK,
             Some [0x00, 0x01, 0x02, 0x03, 0x04, 0x05, 0x06, 0x07,
                   0x08, 0x09, 0x0a, 0x0b, 0x0c, 0x0d, 0x0e, 0x0f, 0xf0])"
  by (simp add: io_defs fixture_defs init_defs)

section \<open>Frame lemmas for the side-file functions\<close>

lemma session_kept_refl [simp]: "session_kept gf gf"
  by (simp add: session_kept_def)

lemma session_kept_trans: "session_kept a b \<Longrightarrow> session_kept b c \<Longrightarrow> session_kept a c"
  by (simp add: session_kept_def)

lemma others_kept_refl [simp]: "others_kept d w w"
  by (simp add: others_kept_def)

lemma others_kept_trans: "others_kept d a b \<Longrightarrow> others_kept d b c \<Longrightarrow> others_kept d a c"
  by (simp add: others_kept_def)

lemma read_fd_kept: "read_fd w d n = (k, data, w') \<Longrightarrow> others_kept d w w'"
  by (auto simp: read_fd_def others_kept_def fdtab_put_def Let_def
      split: option.splits if_splits)

lemma writev_kept: "writev w d data = (k, w') \<Longrightarrow> others_kept d w w'"
  by (auto simp: writev_def others_kept_def fdtab_put_def Let_def
      split: option.splits if_splits)

lemma eiWriteRec_kept:
  "eiWriteRec gf h lh b lb w = Some (r, w') \<Longrightarrow> others_kept (fd gf) w w'"
  by (auto simp: eiWriteRec_def Let_def split: if_splits prod.splits dest: writev_kept)

lemma eiRead_kept:
  "eiRead gf w = Some (r, gf', w') \<Longrightarrow>
   fd gf' = fd gf \<and> session_kept gf gf' \<and> others_kept (fd gf) w w' \<and> readBuf gf' \<noteq> Freed"
  by (auto simp: eiRead_def Let_def session_kept_def others_kept_def
      split: if_splits prod.splits ptr.splits dest!: read_fd_kept)

lemma readBuf_fetch_kept:
  "readBuf_fetch gf w = Some (c, gf', w') \<Longrightarrow>
   fd gf' = fd gf \<and> session_kept gf gf' \<and> w' = w \<and> readBuf gf' \<noteq> Freed"
  by (auto simp: readBuf_fetch_def session_kept_def split: if_splits ptr.splits)

lemma eiReadChar_kept:
  "eiReadChar gf w = Some (c, gf', w') \<Longrightarrow>
   fd gf' = fd gf \<and> session_kept gf gf' \<and> others_kept (fd gf) w w' \<and> readBuf gf' \<noteq> Freed"
  apply (simp add: eiReadChar_def split: if_splits option.splits prod.splits)
    apply (auto dest!: eiRead_kept readBuf_fetch_kept intro: session_kept_trans)
  done


lemma eiGetRecord_rectype_kept:
  "eiGetRecord_rectype i c rt gf w = Some (i', c', rt', gf', w') \<Longrightarrow>
   fd gf' = fd gf \<and> session_kept gf gf' \<and> others_kept (fd gf) w w'
   \<and> (readBuf gf \<noteq> Freed \<longrightarrow> readBuf gf' \<noteq> Freed)"
proof (induction i c rt gf w rule: eiGetRecord_rectype.induct)
  case (1 i c rectype gf w)
  show ?case
  proof (cases "i < EIF_MAX_RECTYPE_LEN")
    case False
    with "1.prems" show ?thesis
      by (subst (asm) eiGetRecord_rectype.simps) simp
  next
    case True
    from "1.prems" True obtain co gf1 w1 where rc: "eiReadChar gf w = Some (co, gf1, w1)"
      by (subst (asm) eiGetRecord_rectype.simps) (auto split: option.splits)
    note k = eiReadChar_kept [OF rc]
    show ?thesis
    proof (cases "\<exists>ch. co = Some ch \<and> ch \<noteq> CHR '':''")
      case False
      with "1.prems" True rc have "gf' = gf1 \<and> w' = w1"
        by (subst (asm) eiGetRecord_rectype.simps) (auto split: option.splits if_splits)
      with k show ?thesis by simp
    next
      case True
      then obtain ch where ch: "co = Some ch" "ch \<noteq> CHR '':''" by blast
      with "1.prems" \<open>i < EIF_MAX_RECTYPE_LEN\<close> rc
      have rec: "eiGetRecord_rectype (i + 1) (Some ch) (rectype @ [ch]) gf1 w1
                   = Some (i', c', rt', gf', w')"
        by (subst (asm) eiGetRecord_rectype.simps) simp
      have "fd gf' = fd gf1 \<and> session_kept gf1 gf' \<and> others_kept (fd gf1) w1 w'
            \<and> (readBuf gf1 \<noteq> Freed \<longrightarrow> readBuf gf' \<noteq> Freed)"
        using "1.IH" [OF \<open>i < EIF_MAX_RECTYPE_LEN\<close> rc _ _ _ ch(2) rec] ch by simp
      with k show ?thesis
        by (auto intro: session_kept_trans others_kept_trans)
    qed
  qed
qed


lemma eiGetRecord_value_kept:
  "eiGetRecord_value i c v gf w = Some (i', c', v', gf', w') \<Longrightarrow>
   fd gf' = fd gf \<and> session_kept gf gf' \<and> others_kept (fd gf) w w'
   \<and> (readBuf gf \<noteq> Freed \<longrightarrow> readBuf gf' \<noteq> Freed)"
proof (induction i c v gf w rule: eiGetRecord_value.induct)
  case (1 i c val gf w)
  show ?case
  proof (cases "i < EIF_MAX_VALUE_LEN")
    case False
    with "1.prems" show ?thesis
      by (subst (asm) eiGetRecord_value.simps) simp
  next
    case True
    from "1.prems" True obtain co gf1 w1 where rc: "eiReadChar gf w = Some (co, gf1, w1)"
      by (subst (asm) eiGetRecord_value.simps) (auto split: option.splits)
    note k = eiReadChar_kept [OF rc]
    show ?thesis
    proof (cases "\<exists>ch. co = Some ch \<and> ch \<noteq> CHR 0x0A")
      case False
      with "1.prems" True rc have "gf' = gf1 \<and> w' = w1"
        by (subst (asm) eiGetRecord_value.simps) (auto split: option.splits if_splits)
      with k show ?thesis by simp
    next
      case True
      then obtain ch where ch: "co = Some ch" "ch \<noteq> CHR 0x0A" by blast
      with "1.prems" \<open>i < EIF_MAX_VALUE_LEN\<close> rc
      have rec: "eiGetRecord_value (i + 1) (Some ch) (val @ [ch]) gf1 w1
                   = Some (i', c', v', gf', w')"
        by (subst (asm) eiGetRecord_value.simps) simp
      have "fd gf' = fd gf1 \<and> session_kept gf1 gf' \<and> others_kept (fd gf1) w1 w'
            \<and> (readBuf gf1 \<noteq> Freed \<longrightarrow> readBuf gf' \<noteq> Freed)"
        using "1.IH" [OF \<open>i < EIF_MAX_VALUE_LEN\<close> rc _ _ _ ch(2) rec] ch by simp
      with k show ?thesis
        by (auto intro: session_kept_trans others_kept_trans)
    qed
  qed
qed

lemma eiGetRecord_kept:
  assumes "eiGetRecord gf w = Some (r, rt, v, gf', w')"
  shows "fd gf' = fd gf \<and> session_kept gf gf' \<and> others_kept (fd gf) w w'
         \<and> (readBuf gf \<noteq> Freed \<longrightarrow> readBuf gf' \<noteq> Freed)"
proof -
  from assms obtain i c rt1 gf1 w1 where
    a: "eiGetRecord_rectype 0 None [] gf w = Some (i, c, rt1, gf1, w1)"
    by (auto simp: eiGetRecord_def split: option.splits)
  note ka = eiGetRecord_rectype_kept [OF a]
  show ?thesis
  proof (cases "c = Some (CHR '':'')")
    case False
    with assms a have "gf' = gf1 \<and> w' = w1" by (simp add: eiGetRecord_def)
    with ka show ?thesis by simp
  next
    case True
    with assms a obtain i2 c2 v2 where
      b: "eiGetRecord_value (i + 1) c [] gf1 w1 = Some (i2, c2, v2, gf', w')"
      by (auto simp: eiGetRecord_def split: option.splits if_splits)
    note kb = eiGetRecord_value_kept [OF b]
    from ka kb show ?thesis
      by (auto intro: session_kept_trans others_kept_trans)
  qed
qed

lemma eiGetIV_kept:
  assumes "eiGetIV gf iv n w = Some (r, iv', gf', w')"
  shows "fd gf' = fd gf \<and> session_kept gf gf' \<and> others_kept (fd gf) w w'
         \<and> (readBuf gf \<noteq> Freed \<longrightarrow> readBuf gf' \<noteq> Freed)"
proof -
  from assms obtain r1 rt v where
    a: "eiGetRecord gf w = Some (r1, rt, v, gf', w')"
    by (auto simp: eiGetIV_def Let_def split: option.splits if_splits)
  from eiGetRecord_kept [OF a] show ?thesis .
qed

lemma lowest_free_fresh: "lowest_free tab \<notin> fst ` set tab"
proof -
  define ks where "ks = map fst tab"
  define xs where "xs = [0..<length tab + 1]"
  let ?P = "\<lambda>n. int n \<notin> set ks"
  have sx: "set xs = {0..<length tab + 1}" by (simp only: xs_def set_upt)
  have "\<exists>n \<in> set xs. ?P n"
  proof (rule ccontr)
    assume "\<not> ?thesis"
    then have sub: "int ` set xs \<subseteq> set ks" by blast
    have "card (int ` set xs) = length tab + 1"
      by (simp only: sx) (simp add: card_image)
    moreover have "card (set ks) \<le> length tab"
      using card_length [of ks] by (simp add: ks_def)
    moreover have "card (int ` set xs) \<le> card (set ks)"
      using sub by (intro card_mono) simp_all
    ultimately show False by simp
  qed
  then have ne: "filter ?P xs \<noteq> []"
    by (simp add: filter_empty_conv)
  then have "hd (filter ?P xs) \<in> set (filter ?P xs)"
    by (rule hd_in_set)
  then have "?P (hd (filter ?P xs))" by simp
  then have "lowest_free tab \<notin> set ks"
    unfolding lowest_free_def xs_def ks_def .
  then show ?thesis by (simp add: ks_def)
qed

lemma lowest_free_nonneg: "0 \<le> lowest_free tab"
  by (simp add: lowest_free_def)

lemma filter_fresh: "d \<notin> fst ` set tab \<Longrightarrow> filter (\<lambda>e. fst e \<noteq> d) tab = tab"
  by (induction tab) auto

lemma eiOpenRead_cases:
  assumes "eiOpenRead gf w = (r, gf', w')"
  shows "session_kept gf gf' \<and> readBuf gf' = readBuf gf \<and> cipher_handles w' = cipher_handles w
         \<and> ((r = RS_RET_OK \<and> fd gf' = lowest_free (fdtab w)
              \<and> (\<exists>f. fdtab w' = (lowest_free (fdtab w), f) # fdtab w))
             \<or> (r \<noteq> RS_RET_OK \<and> fd gf' = - 1 \<and> w' = w))"
  using assms
  by (auto simp: eiOpenRead_def open_path_def session_kept_def Let_def
      split: option.splits if_splits)

lemma readIV_loop_cases:
  assumes "readIV_loop others n gf w = Some y"
  shows "session_kept gf (fst (snd y)) \<and> readBuf (fst (snd y)) = readBuf gf
         \<and> cipher_handles (snd (snd y)) = cipher_handles w
         \<and> ((fst y = RS_RET_OK \<and> fd (fst (snd y)) = lowest_free (fdtab w)
              \<and> (\<exists>f. fdtab (snd (snd y)) = (lowest_free (fdtab w), f) # fdtab w))
             \<or> (fst y \<noteq> RS_RET_OK \<and> fd (fst (snd y)) = - 1
                 \<and> fdtab (snd (snd y)) = fdtab w))"
proof -
  define P where "P = (\<lambda>(others :: nat \<Rightarrow> (string \<rightharpoonup> fnode) \<Rightarrow> (string \<rightharpoonup> fnode)) (n :: nat)
      (gf :: 'a gcryfile) (w :: world) (y :: rsRetVal \<times> 'a gcryfile \<times> world).
      session_kept gf (fst (snd y)) \<and> readBuf (fst (snd y)) = readBuf gf
         \<and> cipher_handles (snd (snd y)) = cipher_handles w
         \<and> ((fst y = RS_RET_OK \<and> fd (fst (snd y)) = lowest_free (fdtab w)
              \<and> (\<exists>f. fdtab (snd (snd y)) = (lowest_free (fdtab w), f) # fdtab w))
             \<or> (fst y \<noteq> RS_RET_OK \<and> fd (fst (snd y)) = - 1
                 \<and> fdtab (snd (snd y)) = fdtab w)))"
  have "P others n gf w y"
  proof (rule readIV_loop.raw_induct [where P = P, OF _ assms])
    fix loop :: "(nat \<Rightarrow> (string \<rightharpoonup> fnode) \<Rightarrow> (string \<rightharpoonup> fnode)) \<Rightarrow> nat \<Rightarrow> 'a gcryfile \<Rightarrow> world
        \<Rightarrow> (rsRetVal \<times> 'a gcryfile \<times> world) option"
      and others n gf w y
    assume ih: "\<And>others n gf w y. loop others n gf w = Some y \<Longrightarrow> P others n gf w y"
      and body: "(case eiOpenRead gf w of
          (localRet, gf', w') \<Rightarrow>
            if localRet = RS_RET_EI_NO_EXISTS
            then loop others (n + 1) gf' (w'\<lparr>files := others n (files w')\<rparr>)
            else Some (localRet, gf', w')) = Some y"
    obtain r gf1 w1 where o: "eiOpenRead gf w = (r, gf1, w1)"
      by (cases "eiOpenRead gf w") auto
    note c = eiOpenRead_cases [OF o]
    show "P others n gf w y"
    proof (cases "r = RS_RET_EI_NO_EXISTS")
      case True
      with c have same: "w1 = w" by auto
      from c have g: "session_kept gf gf1" "readBuf gf1 = readBuf gf" by simp_all
      from body o True
      have "loop others (n + 1) gf1 (w1\<lparr>files := others n (files w1)\<rparr>) = Some y"
        by simp
      from ih [OF this]
      have p: "P others (n + 1) gf1 (w\<lparr>files := others n (files w)\<rparr>) y"
        by (simp add: same)
      then have "session_kept gf1 (fst (snd y))" by (simp add: P_def)
      with g(1) have "session_kept gf (fst (snd y))" by (rule session_kept_trans)
      with p g(2) show ?thesis by (simp add: P_def)
    next
      case False
      with body o have y: "y = (r, gf1, w1)" by auto
      from c show ?thesis unfolding y P_def by auto
    qed
  qed
  then show ?thesis by (simp add: P_def)
qed


lemma eiCheckFiletype_open_kept:
  assumes "eiCheckFiletype gf w = (r, gf', w')" and "fd gf \<noteq> - 1"
  shows "fd gf' = fd gf \<and> session_kept gf gf' \<and> readBuf gf' = readBuf gf
         \<and> others_kept (fd gf) w w'"
proof -
  let ?n = "length (''FILETYPE:'' @ RSGCRY_FILETYPE_NAME @ [CHR 0x0A])"
  obtain k data w2 where rd: "read_fd w (fd gf) ?n = (k, data, w2)"
    by (cases "read_fd w (fd gf) ?n") auto
  from assms rd have "gf' = gf \<and> w' = w2"
    by (simp add: eiCheckFiletype_def Let_def split: if_splits)
  with read_fd_kept [OF rd] show ?thesis by simp
qed

lemma malloc_kept:
  "malloc w n = (iv, w') \<Longrightarrow> fdtab w' = fdtab w \<and> cipher_handles w' = cipher_handles w"
  by (auto simp: malloc_def split: if_splits)


lemma readIV_cases:
  assumes "readIV others gf w = Some (r, iv, gf', w')" and "readBuf gf \<noteq> Freed"
  shows "session_kept gf gf' \<and> readBuf gf' \<noteq> Freed \<and> cipher_handles w' = cipher_handles w
         \<and> ((fd gf' = - 1 \<and> fdtab w' = fdtab w)
             \<or> (fd gf' = lowest_free (fdtab w)
                 \<and> filter (\<lambda>e. fst e \<noteq> lowest_free (fdtab w)) (fdtab w') = fdtab w))"
proof -
  let ?d = "lowest_free (fdtab w)"
  from assms(1) obtain r1 gf1 w1 where
    l: "readIV_loop others 0 gf w = Some (r1, gf1, w1)"
    by (auto simp: readIV_def split: option.splits)
  from readIV_loop_cases [OF l]
  have k1: "session_kept gf gf1" "readBuf gf1 = readBuf gf"
    "cipher_handles w1 = cipher_handles w"
    and alt: "(r1 = RS_RET_OK \<and> fd gf1 = ?d \<and> (\<exists>f. fdtab w1 = (?d, f) # fdtab w))
              \<or> (r1 \<noteq> RS_RET_OK \<and> fd gf1 = - 1 \<and> fdtab w1 = fdtab w)"
    by simp_all
  have fresh: "filter (\<lambda>e. fst e \<noteq> ?d) (fdtab w) = fdtab w"
    by (rule filter_fresh) (rule lowest_free_fresh)
  show ?thesis
  proof (cases "r1 = RS_RET_OK")
    case False
    with assms(1) l have "gf' = gf1 \<and> w' = w1" by (simp add: readIV_def)
    with k1 alt False assms(2) show ?thesis by auto
  next
    case True
    with alt obtain f where o: "fd gf1 = ?d" "fdtab w1 = (?d, f) # fdtab w" by auto
    have dn: "fd gf1 \<noteq> - 1" using o(1) lowest_free_nonneg [of "fdtab w"] by simp
    have f1: "filter (\<lambda>e. fst e \<noteq> ?d) (fdtab w1) = fdtab w"
      using o(2) fresh by simp
    obtain r2 gf2 w2 where c: "eiCheckFiletype gf1 w1 = (r2, gf2, w2)"
      by (cases "eiCheckFiletype gf1 w1") auto
    from eiCheckFiletype_open_kept [OF c dn]
    have k2: "fd gf2 = ?d" "session_kept gf1 gf2" "readBuf gf2 = readBuf gf1"
      "others_kept ?d w1 w2"
      using o(1) by simp_all
    have f2: "filter (\<lambda>e. fst e \<noteq> ?d) (fdtab w2) = fdtab w"
      and h2: "cipher_handles w2 = cipher_handles w"
      using k2(4) f1 k1(3) by (simp_all add: others_kept_def)
    show ?thesis
    proof (cases "r2 = RS_RET_OK")
      case False
      with assms(1) l True c have "gf' = gf2 \<and> w' = w2" by (simp add: readIV_def)
      with k1 k2 f2 h2 assms(2) show ?thesis
        by (auto intro: session_kept_trans)
    next
      case r2: True
      obtain iv0 w3 where m: "malloc w2 (blkLength gf2) = (iv0, w3)"
        by (cases "malloc w2 (blkLength gf2)") auto
      from assms(1) l True c r2 m
      have g: "eiGetIV gf2 iv0 (blkLength gf2) w3 = Some (r, iv, gf', w')"
        by (simp add: readIV_def)
      from eiGetIV_kept [OF g] k2(1)
      have k3: "fd gf' = ?d" "session_kept gf2 gf'" "others_kept ?d w3 w'"
        "readBuf gf2 \<noteq> Freed \<longrightarrow> readBuf gf' \<noteq> Freed"
        by simp_all
      from malloc_kept [OF m] f2 h2 k3(3)
      have "filter (\<lambda>e. fst e \<noteq> ?d) (fdtab w') = fdtab w"
        "cipher_handles w' = cipher_handles w"
        by (simp_all add: others_kept_def)
      with k1 k2 k3 assms(2) show ?thesis
        by (auto intro: session_kept_trans)
    qed
  qed
qed


lemma eiClose_closed: "fd gf = - 1 \<Longrightarrow> eiClose gf offs w = Some (gf, w)"
  by (simp add: eiClose_def)


lemma eiClose_cases:
  assumes "eiClose gf offs w = Some (gf', w')" and "fd gf \<noteq> - 1"
  shows "fdtab w' = filter (\<lambda>e. fst e \<noteq> fd gf) (fdtab w)
         \<and> cipher_handles w' = cipher_handles w"
proof -
  from assms obtain r w1 where
    a: "eiWriteRec gf ''END:'' 4 (take 20 (printf_lld (sint offs)))
          (length (printf_lld (sint offs))) w = Some (r, w1)"
    and b: "w' = close_fd w1 (fd gf)"
    by (auto simp: eiClose_def Let_def split: option.splits ptr.splits)
  from eiWriteRec_kept [OF a] b show ?thesis
    by (simp add: others_kept_def close_fd_def)
qed

section \<open>Closing the side-file\<close>

lemma digit_char: "n < 10 \<Longrightarrow> of_char (''0123456789'' ! n) = 48 + (n :: nat)"
proof -
  assume "n < 10"
  then consider "n = 0" | "n = 1" | "n = 2" | "n = 3" | "n = 4" | "n = 5" | "n = 6"
    | "n = 7" | "n = 8" | "n = 9"
    by atomize_elim arith
  then show ?thesis by cases simp_all
qed

lemma digit_char_mem: "n < 10 \<Longrightarrow> ''0123456789'' ! n \<in> set ''0123456789''"
  by (rule nth_mem) simp

lemma dec_value_snoc: "dec_value (s @ [c]) = 10 * dec_value s + (of_char c - 48)"
  by (simp add: dec_value_def)

lemma dec_value_digits: "dec_value (dec_digits n) = n"
proof (induction n rule: dec_digits.induct)
  case (1 n)
  show ?case
  proof (cases "n < 10")
    case True
    then show ?thesis
      by (subst dec_digits.simps) (simp add: dec_value_def digit_char)
  next
    case False
    have m: "n mod 10 < 10" by simp
    from False "1.IH" have "dec_value (dec_digits (n div 10)) = n div 10" by simp
    with False show ?thesis
      by (subst dec_digits.simps) (simp add: dec_value_snoc digit_char [OF m])
  qed
qed

lemma dec_digits_chars: "set (dec_digits n) \<subseteq> set ''0123456789''"
proof (induction n rule: dec_digits.induct)
  case (1 n)
  show ?case
  proof (cases "n < 10")
    case True
    then show ?thesis
      using digit_char_mem [OF True] by (subst dec_digits.simps) simp
  next
    case False
    have m: "n mod 10 < 10" by simp
    from False "1.IH" have "set (dec_digits (n div 10)) \<subseteq> set ''0123456789''" by simp
    with False digit_char_mem [OF m] show ?thesis
      by (subst dec_digits.simps) simp
  qed
qed

lemma dec_digits_nonempty: "dec_digits n \<noteq> []"
  by (subst dec_digits.simps) simp

lemma printf_lld_value: "lld_value (printf_lld v) = v"
proof (cases "v < 0")
  case True
  then show ?thesis by (simp add: printf_lld_def lld_value_def dec_value_digits)
next
  case False
  obtain c cs where d: "dec_digits (nat v) = c # cs"
    using dec_digits_nonempty [of "nat v"] by (cases "dec_digits (nat v)") auto
  have "c \<in> set ''0123456789''"
    using dec_digits_chars [of "nat v"] d by auto
  then have "c \<noteq> CHR ''-''" by auto
  with False d dec_value_digits [of "nat v"] show ?thesis
    by (simp add: printf_lld_def lld_value_def)
qed

lemma dec_digits_length: "n < 10 ^ k \<Longrightarrow> 0 < k \<Longrightarrow> length (dec_digits n) \<le> k"
proof (induction n arbitrary: k rule: dec_digits.induct)
  case (1 n)
  show ?case
  proof (cases "n < 10")
    case True
    with "1.prems" show ?thesis by (subst dec_digits.simps) simp
  next
    case False
    then obtain k' where k: "k = Suc k'"
      using "1.prems" by (cases k) auto
    have "k' \<noteq> 0" using False "1.prems" k by (cases k') auto
    moreover have "n div 10 < 10 ^ k'"
      using "1.prems"(1) k by (simp add: less_mult_imp_div_less mult.commute)
    ultimately have "length (dec_digits (n div 10)) \<le> k'"
      using "1.IH" [OF False, of k'] by simp
    with False k show ?thesis by (subst dec_digits.simps) simp
  qed
qed

lemma printf_lld_length: "length (printf_lld (sint (x :: 64 word))) \<le> 20"
proof -
  have lo: "- (2 ^ 63) \<le> sint x" using sint_ge [of x] by simp
  have hi: "sint x < 2 ^ 63" using sint_lt [of x] by simp
  have p: "(2::nat) ^ 63 < 10 ^ 19" by simp
  show ?thesis
  proof (cases "sint x < 0")
    case True
    then have "nat (- sint x) \<le> 2 ^ 63" using lo by simp
    then have "nat (- sint x) < 10 ^ 19" using p by simp
    then have "length (dec_digits (nat (- sint x))) \<le> 19"
      by (rule dec_digits_length) simp
    with True show ?thesis by (simp add: printf_lld_def)
  next
    case False
    then have "nat (sint x) < 2 ^ 63" using hi by simp
    then have "nat (sint x) < 10 ^ 19" using p by simp
    then have "length (dec_digits (nat (sint x))) \<le> 19"
      by (rule dec_digits_length) simp
    with False show ?thesis by (simp add: printf_lld_def)
  qed
qed

lemma close_fd_gone: "map_of (fdtab (close_fd w d)) d = None"
  by (simp add: close_fd_def map_of_eq_None_iff image_iff)

text \<open>
  C8. For a session whose descriptor is open (and whose read buffer has not been freed
  already), \<open>eiClose\<close> returns, with no status: the session's descriptor field is
  \<open>- 1\<close>, the read buffer is freed if there was one, and the descriptor is no longer in
  the descriptor table. The only other effect is the one \<open>writev\<close> call with the bytes
  \<open>END:\<close>, the decimal text of the signed 64-bit offset and a line feed; where the
  descriptor is open for appending and the file system has room, the side-file ends with
  exactly these bytes afterwards. The decimal text denotes the offset and has at most 20
  characters, so it fits the local buffer. Whether the write succeeds has no influence on
  the release.
\<close>

theorem eiClose_releases:
  assumes "fd gf \<noteq> - 1" and "readBuf gf \<noteq> Freed"
  shows "eiClose gf offsLogfile w =
           Some (gf\<lparr>readBuf := (if readBuf gf = NULL then NULL else Freed), fd := - 1\<rparr>,
                 close_fd (snd (writev w (fd gf)
                                  (''END:'' @ printf_lld (sint offsLogfile) @ [CHR 0x0A])))
                          (fd gf))
         \<and> map_of (fdtab (close_fd (snd (writev w (fd gf)
                                  (''END:'' @ printf_lld (sint offsLogfile) @ [CHR 0x0A])))
                          (fd gf))) (fd gf) = None
         \<and> (\<forall>f fl. map_of (fdtab w) (fd gf) = Some f \<and> fd_wronly f \<and> fd_append f
                  \<and> files w (fd_path f) = Some fl
                  \<and> length (printf_lld (sint offsLogfile)) + 5 \<le> avail w \<longrightarrow>
                files (close_fd (snd (writev w (fd gf)
                                  (''END:'' @ printf_lld (sint offsLogfile) @ [CHR 0x0A])))
                          (fd gf)) (fd_path f)
                  = Some (fl\<lparr>content := content fl @ ''END:'' @ printf_lld (sint offsLogfile)
                                         @ [CHR 0x0A]\<rparr>))
         \<and> lld_value (printf_lld (sint offsLogfile)) = sint offsLogfile
         \<and> length (printf_lld (sint offsLogfile)) \<le> 20"
proof -
  let ?s = "printf_lld (sint offsLogfile)"
  let ?data = "''END:'' @ ?s @ [CHR 0x0A]"
  have len: "length ?s \<le> 20" by (rule printf_lld_length)
  then have tk: "take 20 ?s = ?s" by simp
  obtain k w1 where wv: "writev w (fd gf) ?data = (k, w1)"
    by (cases "writev w (fd gf) ?data") auto
  have wr: "eiWriteRec gf ''END:'' 4 (take 20 ?s) (length ?s) w
              = Some (if k \<noteq> int (4 + length ?s + 1) then RS_RET_EI_WR_ERR else RS_RET_OK, w1)"
    using wv by (simp add: eiWriteRec_def tk Let_def)
  have a: "eiClose gf offsLogfile w =
           Some (gf\<lparr>readBuf := (if readBuf gf = NULL then NULL else Freed), fd := - 1\<rparr>,
                 close_fd w1 (fd gf))"
    using assms wr by (cases "readBuf gf") (simp_all add: eiClose_def Let_def)
  have c: "files (close_fd w1 (fd gf)) (fd_path f)
             = Some (fl\<lparr>content := content fl @ ?data\<rparr>)"
    if "map_of (fdtab w) (fd gf) = Some f" "fd_wronly f" "fd_append f"
      "files w (fd_path f) = Some fl" "length ?s + 5 \<le> avail w" for f fl
  proof -
    have "take (avail w) ?data = ?data" using that(5) by simp
    with that wv show ?thesis
      by (auto simp: writev_def close_fd_def Let_def)
  qed
  have w1: "snd (writev w (fd gf) ?data) = w1"
    by (simp only: wv snd_conv)
  show ?thesis
    unfolding w1
    using a c close_fd_gone [of w1 "fd gf"] printf_lld_value [of "sint offsLogfile"] len
    by blast
qed

theorem eiClose_releases_witness:
  "map_option (\<lambda>(gf, w). (fd gf, readBuf gf, map fst (fdtab w),
                            map_option content (files w ''log.encinfo'')))
     (eiClose writer 12345 world_log)
   = Some (- 1, NULL, [4], Some (''END:12345'' @ [CHR 0x0A]))"
proof -
  have h1: "fd writer \<noteq> - 1" and h2: "readBuf writer \<noteq> Freed"
    by (simp_all add: writer_def sess16_def)
  have s: "printf_lld 12345 = ''12345''"
    by (simp add: printf_lld_def dec_digits.simps)
  show ?thesis
    using eiClose_releases [OF h1 h2, of 12345 world_log]
    by (simp add: s writev_def close_fd_def fdtab_put_def Let_def
        writer_def sess16_def world_log_def world0_def)
qed

text \<open>
  C10. \<open>gcryfileDestruct\<close> with a null session returns 0 for every offset and leaves the
  process state as it is: nothing is written and nothing is released.
\<close>

theorem gcryfileDestruct_null:
  "gcryfileDestruct None offsLogfile w = Some (0, w)"
  by (simp add: gcryfileDestruct_def)

section \<open>Opening a session\<close>


text \<open>
  The result of \<open>readIV\<close> is dropped: with a side-file that fails the file type check,
  a read-mode \<open>rsgcryInitCrypt\<close> returns \<open>RS_RET_OK\<close> and a session whose descriptor
  (number 0 here) stays open.
\<close>

lemma rsgcryInitCrypt_ignores_readIV_failure:
  "map_option (\<lambda>(r, pgf, w). (r, map_option fd pgf, map fst (fdtab w)))
     (rsgcryInitCrypt xor_cipher 200 nobody ctx0 ''log'' (CHR ''r'') (world_with bad_sidefile))
   = Some (RS_RET_OK, Some 0, [0, 3, 4])"
  by (simp add: io_defs fixture_defs init_defs)

lemma gcryfileConstruct_oom:
  "mallocs_left w = 0 \<Longrightarrow> gcryfileConstruct m c fname w = (RS_RET_OUT_OF_MEMORY, None, w)"
  by (simp add: gcryfileConstruct_def)

lemma gcryfileConstruct_ok:
  assumes "0 < mallocs_left w"
  shows "\<exists>gf0 w0. gcryfileConstruct m c fname w = (RS_RET_OK, Some gf0, w0)
           \<and> fd gf0 = - 1 \<and> readBuf gf0 = NULL \<and> ctx gf0 = c \<and> chd gf0 = None
           \<and> fdtab w0 = fdtab w \<and> cipher_handles w0 = cipher_handles w"
  using assms by (simp add: gcryfileConstruct_def Let_def)

lemma abort_closed:
  "fd gf = - 1 \<Longrightarrow> rsgcryInitCrypt_abort r gf w = Some (r, None, w)"
  by (simp add: rsgcryInitCrypt_abort_def gcryfileDestruct_def eiClose_closed)

lemma abort_cases:
  assumes "rsgcryInitCrypt_abort r gf w = Some (r', pgf, w')"
  shows "r' = r \<and> pgf = None \<and> cipher_handles w' = cipher_handles w
         \<and> (fd gf = - 1 \<longrightarrow> fdtab w' = fdtab w)
         \<and> (fd gf \<noteq> - 1 \<longrightarrow> fdtab w' = filter (\<lambda>e. fst e \<noteq> fd gf) (fdtab w))"
proof (cases "fd gf = - 1")
  case True
  with assms show ?thesis by (simp add: abort_closed)
next
  case False
  from assms obtain gf1 where c: "eiClose gf (- 1) w = Some (gf1, w')" and "r' = r" "pgf = None"
    by (auto simp: rsgcryInitCrypt_abort_def gcryfileDestruct_def split: option.splits)
  with eiClose_cases [OF c False] False show ?thesis by simp
qed







lemma eiCheckFiletype_session:
  assumes "eiCheckFiletype gf w = (r, gf', w')"
  shows "session_kept gf gf'"
proof (cases "fd gf = - 1")
  case False
  from eiCheckFiletype_open_kept [OF assms False] show ?thesis by simp
next
  case True
  obtain r1 gf1 w1 where o: "eiOpenRead gf w = (r1, gf1, w1)"
    by (cases "eiOpenRead gf w") auto
  from eiOpenRead_cases [OF o] have k: "session_kept gf gf1" by simp
  from assms True o have "gf' = gf1 \<or> gf' = gf1\<lparr>fd := - 1\<rparr>"
    by (auto simp: eiCheckFiletype_def Let_def split: if_splits prod.splits)
  with k show ?thesis by (auto simp: session_kept_def)
qed

lemma eiOpenAppend_session:
  assumes "eiOpenAppend gf w = Some (r, gf', w')"
  shows "session_kept gf gf'"
proof -
  obtain r1 gf1 w1 where c: "eiCheckFiletype gf w = (r1, gf1, w1)"
    by (cases "eiCheckFiletype gf w") auto
  from eiCheckFiletype_session [OF c] have k: "session_kept gf gf1" .
  from assms c have "\<exists>d. gf' = gf1\<lparr>fd := d\<rparr>"
    by (auto simp: eiOpenAppend_def split: if_splits prod.splits sum.splits option.splits)
  with k show ?thesis by (auto simp: session_kept_def)
qed

lemma rsgcryInitCrypt_session:
  assumes res: "rsgcryInitCrypt g m others c fname om w = Some (RS_RET_OK, Some gf, w')"
  shows "ctx gf = c \<and> blkLength gf = gcry_cipher_get_algo_blklen g (algo c) \<and> openMode gf = om
         \<and> (\<exists>h h1 h2 iv. gcry_cipher_open g (algo c) (mode c) = Some h
                \<and> gcry_cipher_setkey g h (key c) (keyLen c) = Some h1
                \<and> gcry_cipher_setiv g h1 iv (gcry_cipher_get_algo_blklen g (algo c)) = Some h2
                \<and> chd gf = Some h2)"
proof -
  have noab: "rsgcryInitCrypt_abort r x y \<noteq> Some (RS_RET_OK, Some gf, w')" for r x y
    using abort_cases [of r x y RS_RET_OK "Some gf" w'] by auto
  then have noab2: "Some (RS_RET_OK, Some gf, w') \<noteq> rsgcryInitCrypt_abort r x y" for r x y
    by (metis (no_types))
  have ml: "0 < mallocs_left w"
  proof (rule ccontr)
    assume "\<not> ?thesis"
    then have "mallocs_left w = 0" by simp
    with res show False by (simp add: rsgcryInitCrypt_def gcryfileConstruct_oom)
  qed
  then obtain gf0 w0 where
    k: "gcryfileConstruct m c fname w = (RS_RET_OK, Some (gf0 :: 'a gcryfile), w0)"
      "readBuf gf0 = NULL" "ctx gf0 = c"
    using gcryfileConstruct_ok [of w m c fname] by blast
  obtain h where h: "gcry_cipher_open g (algo c) (mode c) = Some h"
    using res k(1) noab
    by (cases "gcry_cipher_open g (algo c) (mode c)") (auto simp: rsgcryInitCrypt_def Let_def)
  obtain h1 where h1: "gcry_cipher_setkey g h (key c) (keyLen c) = Some h1"
    using res k(1,3) h noab
    by (cases "gcry_cipher_setkey g h (key c) (keyLen c)")
      (auto simp: rsgcryInitCrypt_def Let_def)
  define gf3 where "gf3 = gf0\<lparr>openMode := om,
      blkLength := gcry_cipher_get_algo_blklen g (algo c), chd := Some h, chd := Some h1\<rparr>"
  define w2 where "w2 = w0\<lparr>cipher_handles := cipher_handles w0 + 1\<rparr>"
  define step where "step =
     (if om = CHR ''r''
      then (case readIV others gf3 w2 of
              None \<Rightarrow> None
            | Some (r, iv, gf4, w4) \<Rightarrow> Some (iv, gf4, w4))
      else (case seedIV gf3 w2 of (iv, w4) \<Rightarrow> Some (iv, gf3, w4)))"
  have unf: "rsgcryInitCrypt g m others c fname om w =
     (case step of
        None \<Rightarrow> None
      | Some (iv, gf4, w4) \<Rightarrow>
          (case gcry_cipher_setiv g h1 iv (blkLength gf4) of
             None \<Rightarrow> rsgcryInitCrypt_abort RS_RET_ERR gf4 w4
           | Some h2 \<Rightarrow>
               let gf5 = gf4\<lparr>chd := Some h2\<rparr> in
               if om = CHR ''w'' then
                 (case eiOpenAppend gf5 w4 of
                    None \<Rightarrow> None
                  | Some (r, gf6, w6) \<Rightarrow>
                      if r \<noteq> RS_RET_OK then rsgcryInitCrypt_abort r gf6 w6
                      else
                        (case eiWriteIV gf6 iv w6 of
                           None \<Rightarrow> None
                         | Some (r', w7) \<Rightarrow>
                             if r' \<noteq> RS_RET_OK
                             then rsgcryInitCrypt_abort r' gf6 w7
                             else Some (RS_RET_OK, Some gf6, w7)))
               else Some (RS_RET_OK, Some gf5, w4)))"
    using k(1,3) h h1
    by (simp add: rsgcryInitCrypt_def Let_def gf3_def w2_def step_def)
  from res unf obtain iv gf4 w4 where st: "step = Some (iv, gf4, w4)"
    by (cases step) auto
  have k4: "session_kept gf3 gf4"
  proof (cases "om = CHR ''r''")
    case True
    with st obtain r4 where "readIV others gf3 w2 = Some (r4, iv, gf4, w4)"
      by (auto simp: step_def split: option.splits)
    from readIV_cases [OF this] show ?thesis by (simp add: gf3_def k(2))
  next
    case False
    with st have "gf4 = gf3" by (auto simp: step_def split: prod.splits)
    then show ?thesis by simp
  qed
  from res unf st noab obtain h2 where
    h2: "gcry_cipher_setiv g h1 iv (blkLength gf4) = Some h2"
    by (cases "gcry_cipher_setiv g h1 iv (blkLength gf4)") auto
  have k5: "session_kept (gf4\<lparr>chd := Some h2\<rparr>) gf"
  proof (cases "om = CHR ''w''")
    case False
    with res unf st h2 have "gf = gf4\<lparr>chd := Some h2\<rparr>" by (simp add: Let_def)
    then show ?thesis by simp
  next
    case True
    with res unf st h2 noab obtain r6 gf6 w6 where
      oa: "eiOpenAppend (gf4\<lparr>chd := Some h2\<rparr>) w4 = Some (r6, gf6, w6)"
      by (cases "eiOpenAppend (gf4\<lparr>chd := Some h2\<rparr>) w4") (auto simp: Let_def)
    from res [unfolded unf st] h2 True oa have "gf = gf6"
      using noab noab2 by (auto simp: Let_def split: if_splits option.splits)
    with eiOpenAppend_session [OF oa] show ?thesis by simp
  qed
  from k4 k5 have
    "ctx gf = c" "blkLength gf = gcry_cipher_get_algo_blklen g (algo c)" "openMode gf = om"
    "chd gf = Some h2" "blkLength gf4 = gcry_cipher_get_algo_blklen g (algo c)"
    by (simp_all add: session_kept_def gf3_def k(3))
  with h h1 h2 show ?thesis by auto
qed

text \<open>
  C9. \<open>gcryCtxNew\<close> (when its allocation succeeds) yields a context with algorithm
  AES128, mode CBC, no key and key length 0. A session that \<open>rsgcryInitCrypt\<close> returns
  for such a context, whatever key was set on it meanwhile, refers to a context with AES128
  and CBC, has the block length of AES128, and its handle is the one that
  \<open>gcry_cipher_open\<close> gave for AES128 and CBC, after \<open>gcry_cipher_setkey\<close> and
  \<open>gcry_cipher_setiv\<close>.
\<close>

theorem gcryCtxNew_defaults:
  "(0 < mallocs_left w \<longrightarrow>
      gcryCtxNew w = Some (\<lparr>key = None, keyLen = 0, algo = GCRY_CIPHER_AES128,
                              mode = GCRY_CIPHER_MODE_CBC\<rparr>,
                           w\<lparr>mallocs_left := mallocs_left w - 1\<rparr>))
   \<and> (gcryCtxNew w = Some (c, w1)
       \<and> rsgcryInitCrypt g m others (c\<lparr>key := k, keyLen := n\<rparr>) fname om w2
            = Some (RS_RET_OK, Some gf, w3) \<longrightarrow>
        algo (ctx gf) = GCRY_CIPHER_AES128 \<and> mode (ctx gf) = GCRY_CIPHER_MODE_CBC
        \<and> blkLength gf = gcry_cipher_get_algo_blklen g GCRY_CIPHER_AES128
        \<and> (\<exists>h h1 h2 iv.
              gcry_cipher_open g GCRY_CIPHER_AES128 GCRY_CIPHER_MODE_CBC = Some h
              \<and> gcry_cipher_setkey g h k n = Some h1
              \<and> gcry_cipher_setiv g h1 iv (gcry_cipher_get_algo_blklen g GCRY_CIPHER_AES128)
                   = Some h2
              \<and> chd gf = Some h2))"
proof -
  have a: "gcryCtxNew w = Some (\<lparr>key = None, keyLen = 0, algo = GCRY_CIPHER_AES128,
                              mode = GCRY_CIPHER_MODE_CBC\<rparr>,
                           w\<lparr>mallocs_left := mallocs_left w - 1\<rparr>)"
    if "0 < mallocs_left w"
    using that by (simp add: gcryCtxNew_def)
  have b: "algo (ctx gf) = GCRY_CIPHER_AES128 \<and> mode (ctx gf) = GCRY_CIPHER_MODE_CBC
        \<and> blkLength gf = gcry_cipher_get_algo_blklen g GCRY_CIPHER_AES128
        \<and> (\<exists>h h1 h2 iv.
              gcry_cipher_open g GCRY_CIPHER_AES128 GCRY_CIPHER_MODE_CBC = Some h
              \<and> gcry_cipher_setkey g h k n = Some h1
              \<and> gcry_cipher_setiv g h1 iv (gcry_cipher_get_algo_blklen g GCRY_CIPHER_AES128)
                   = Some h2
              \<and> chd gf = Some h2)"
    if n: "gcryCtxNew w = Some (c, w1)"
      and i: "rsgcryInitCrypt g m others (c\<lparr>key := k, keyLen := n\<rparr>) fname om w2
            = Some (RS_RET_OK, Some gf, w3)"
  proof -
    from n have c: "algo c = GCRY_CIPHER_AES128" "mode c = GCRY_CIPHER_MODE_CBC"
      by (auto simp: gcryCtxNew_def split: if_splits)
    from rsgcryInitCrypt_session [OF i] c show ?thesis by simp
  qed
  from a b show ?thesis by blast
qed

theorem gcryCtxNew_defaults_witness:
  "gcryCtxNew world0 = Some (ctx0, world0\<lparr>mallocs_left := 9\<rparr>)
   \<and> (\<exists>gf w3. rsgcryInitCrypt xor_cipher 200 nobody
                  (ctx0\<lparr>key := Some [1, 2, 3, 4, 5, 6, 7, 8, 9, 10, 11, 12, 13, 14, 15, 16],
                        keyLen := 16\<rparr>)
                  ''log'' (CHR ''r'') (world_with good_sidefile)
                = Some (RS_RET_OK, Some gf, w3)
              \<and> algo (ctx gf) = GCRY_CIPHER_AES128 \<and> mode (ctx gf) = GCRY_CIPHER_MODE_CBC
              \<and> blkLength gf = 16 \<and> chd gf = Some ())"
proof -
  have m: "0 < mallocs_left world0" by (simp add: world0_def)
  have n: "gcryCtxNew world0 = Some (ctx0, world0\<lparr>mallocs_left := 9\<rparr>)"
    using gcryCtxNew_defaults [where w = world0, THEN conjunct1] m
    by (simp add: ctx0_def world0_def)
  have "\<exists>gf w3. rsgcryInitCrypt xor_cipher 200 nobody
                  (ctx0\<lparr>key := Some [1, 2, 3, 4, 5, 6, 7, 8, 9, 10, 11, 12, 13, 14, 15, 16],
                        keyLen := 16\<rparr>)
                  ''log'' (CHR ''r'') (world_with good_sidefile)
                = Some (RS_RET_OK, Some gf, w3)"
    by (simp add: io_defs fixture_defs init_defs)
  then obtain gf w3 where i: "rsgcryInitCrypt xor_cipher 200 nobody
                  (ctx0\<lparr>key := Some [1, 2, 3, 4, 5, 6, 7, 8, 9, 10, 11, 12, 13, 14, 15, 16],
                        keyLen := 16\<rparr>)
                  ''log'' (CHR ''r'') (world_with good_sidefile)
                = Some (RS_RET_OK, Some gf, w3)"
    by blast
  from gcryCtxNew_defaults [where w = world0 and c = ctx0 and ?w1.0 = "world0\<lparr>mallocs_left := 9\<rparr>"
      and g = xor_cipher and m = 200 and others = nobody
      and k = "Some [1, 2, 3, 4, 5, 6, 7, 8, 9, 10, 11, 12, 13, 14, 15, 16]" and n = 16
      and fname = "''log''" and om = "CHR ''r''" and ?w2.0 = "world_with good_sidefile"
      and gf = gf and ?w3.0 = w3, THEN conjunct2] n i
  have "algo (ctx gf) = GCRY_CIPHER_AES128 \<and> mode (ctx gf) = GCRY_CIPHER_MODE_CBC
        \<and> blkLength gf = 16 \<and> chd gf = Some ()"
    by (auto simp: xor_cipher_def)
  with n i show ?thesis by blast
qed

end
